theory Spec2Isabelle
  imports Main "HOL-Library.Word" "HOL-Library.Signed_Division"
begin

unbundle bit_operations_syntax

section \<open>Platform types\<close>

text \<open>
  The sources are C++ for a little-endian 32-bit-\<open>int\<close> target built with the Microsoft
  tool chain (\<open>stdafx.h\<close>, \<open>_wstat\<close>, \<open>_stat\<close>): a \<open>char\<close> is one byte, a
  \<open>wchar_t\<close> is an unsigned 16-bit unit. A C \<open>int\<close> is modelled as an unbounded
  \<open>int\<close>: signed overflow is undefined in C and lies outside the model.
\<close>

type_synonym byte = "8 word"
type_synonym wchar = "16 word"
type_synonym wstring = "wchar list"
type_synonym ByteArray = "byte list"

text \<open>The wide literal \<open>L"..."\<close>: every character of the literal as one wide unit.\<close>

definition L :: "string \<Rightarrow> wstring" where
  "L s = map (\<lambda>c. of_nat (of_char c)) s"

text \<open>
  Ways in which the C++ leaves defined behaviour. The source has no checks for them; the
  model makes each one a value so that no function of the model hides it.
\<close>

datatype fault = DivisionByZero | OutOfBounds | AllocFailure | OutOfDomain

text \<open>
  The promotion of a plain \<open>char\<close> to \<open>int\<close>. Whether plain \<open>char\<close> is signed is
  fixed by the compiler; the flag says which. On the x86 targets of this code it is signed.
\<close>

definition char_to_int :: "bool \<Rightarrow> byte \<Rightarrow> int" where
  "char_to_int signed_char c = (if signed_char then sint c else uint c)"

definition plain_char_signed :: bool where
  "plain_char_signed = True"

text \<open>
  \<open>tolower\<close> of the C library in the "C" locale (the library is no part of the
  repository). Its argument is an \<open>int\<close> that has to be the value of an
  \<open>unsigned char\<close> or \<open>EOF\<close>; the call is undefined for any other argument, a
  fault here. On its domain the 26 capitals move to their small letters and every other
  value is returned as it is.
\<close>

definition EOF :: int where
  "EOF = - 1"

definition tolower_c :: "int \<Rightarrow> fault + int" where
  "tolower_c c =
     (if c = EOF \<or> (0 \<le> c \<and> c \<le> 255)
      then Inr (if 65 \<le> c \<and> c \<le> 90 then c + 32 else c)
      else Inl OutOfDomain)"

section \<open>Util: toWLowercase, getFileNameFromPath, convertUtf8ToWString\<close>

text \<open>
  \<open>toWLowercase\<close>: the loop appends \<open>tolower(str[i])\<close>, an \<open>int\<close>, to a wide string;
  the append converts the \<open>int\<close> to \<open>wchar_t\<close>. The argument of \<open>tolower\<close> is the
  plain \<open>char\<close> \<open>str[i]\<close>, promoted.
\<close>

fun toWLowercase_loop :: "bool \<Rightarrow> byte list \<Rightarrow> wstring \<Rightarrow> fault + wstring" where
  "toWLowercase_loop signed_char [] result = Inr result"
| "toWLowercase_loop signed_char (c # rest) result =
     (case tolower_c (char_to_int signed_char c) of
        Inl f \<Rightarrow> Inl f
      | Inr v \<Rightarrow> toWLowercase_loop signed_char rest (result @ [word_of_int v]))"

definition toWLowercase_on :: "bool \<Rightarrow> byte list \<Rightarrow> fault + wstring" where
  "toWLowercase_on signed_char str = toWLowercase_loop signed_char str []"

definition toWLowercase :: "byte list \<Rightarrow> fault + wstring" where
  "toWLowercase str = toWLowercase_on plain_char_signed str"

text \<open>
  \<open>std::wstring::find_last_of\<close>: the greatest index holding one of the given characters,
  \<open>None\<close> for \<open>npos\<close>.
\<close>

fun find_last_of :: "wstring \<Rightarrow> wstring \<Rightarrow> nat option" where
  "find_last_of [] chars = None"
| "find_last_of (c # cs) chars =
     (case find_last_of cs chars of
        Some i \<Rightarrow> Some (Suc i)
      | None \<Rightarrow> (if c \<in> set chars then Some 0 else None))"

text \<open>
  \<open>getFileNameFromPath\<close>: the two separators searched for are the slash (0x2F) and the
  backslash (0x5C); \<open>path.substr(n)\<close> is the part of the path from index \<open>n\<close> on, the
  character at \<open>n\<close> included.
\<close>

definition getFileNameFromPath :: "wstring \<Rightarrow> wstring" where
  "getFileNameFromPath path =
     (case find_last_of path [0x2F, 0x5C] of
        None \<Rightarrow> path
      | Some n \<Rightarrow> drop n path)"

text \<open>
  \<open>convertUtf8ToWString\<close> reads a NUL-terminated C string; the argument here is the bytes
  before the terminator, and a read at the end of the list sees the terminator 0. The inner
  \<open>for\<close> loop runs \<open>extraBytes\<close> times, once or twice, and is written out. Each
  \<open>source[index++]\<close> is a plain \<open>char\<close> promoted to \<open>int\<close>; \<open>push_back\<close> converts
  the \<open>int\<close> to \<open>wchar_t\<close>.
\<close>

fun convertUtf8ToWString_loop :: "bool \<Rightarrow> byte list \<Rightarrow> wstring \<Rightarrow> wstring" where
  "convertUtf8ToWString_loop sg [] result = result"
| "convertUtf8ToWString_loop sg (c # rest) result =
     (let v = char_to_int sg c in
      if v AND 0xE0 = 0xC0 then
        (case rest of
           [] \<Rightarrow> []
         | c1 # rest1 \<Rightarrow>
             (let b = char_to_int sg c1 in
              if b AND 0xC0 \<noteq> 0x80 then []
              else convertUtf8ToWString_loop sg rest1
                     (result @ [word_of_int (push_bit 6 (v AND 0x1F) OR (b AND 0x3F))])))
      else if v AND 0xF0 = 0xE0 then
        (case rest of
           [] \<Rightarrow> []
         | c1 # rest1 \<Rightarrow>
             (let b = char_to_int sg c1 in
              if b AND 0xC0 \<noteq> 0x80 then []
              else
                (let v1 = push_bit 6 (v AND 0x0F) OR (b AND 0x3F) in
                 case rest1 of
                   [] \<Rightarrow> []
                 | c2 # rest2 \<Rightarrow>
                     (let b2 = char_to_int sg c2 in
                      if b2 AND 0xC0 \<noteq> 0x80 then []
                      else convertUtf8ToWString_loop sg rest2
                             (result @ [word_of_int (push_bit 6 v1 OR (b2 AND 0x3F))])))))
      else if v > 0x7F then []
      else convertUtf8ToWString_loop sg rest (result @ [word_of_int v]))"

definition convertUtf8ToWString :: "byte list \<Rightarrow> wstring" where
  "convertUtf8ToWString source = convertUtf8ToWString_loop plain_char_signed source []"

section \<open>The archive reader\<close>

record ArFileEntry =
  ar_name :: wstring
  ar_data :: ByteArray

text \<open>
  Modelled from the spec: the byte buffer \<open>ByteArray\<close>, whose class is not among the
  sources. The spec gives it a size, a zero-extending \<open>reserveBytes\<close>, 32-bit little-endian
  accessors at byte offsets and sub-range extraction, and makes a read or write past the end
  an error. A byte list is the buffer; an access outside it is the fault \<open>OutOfBounds\<close>.
\<close>

definition byteAt :: "ByteArray \<Rightarrow> int \<Rightarrow> fault + byte" where
  "byteAt buf i = (if 0 \<le> i \<and> i < int (length buf) then Inr (buf ! nat i) else Inl OutOfBounds)"

definition mid :: "ByteArray \<Rightarrow> int \<Rightarrow> int \<Rightarrow> fault + ByteArray" where
  "mid buf pos n =
     (if 0 \<le> pos \<and> 0 \<le> n \<and> pos + n \<le> int (length buf)
      then Inr (take (nat n) (drop (nat pos) buf)) else Inl OutOfBounds)"

text \<open>
  \<open>memcmp(input.data(pos), literal, n) == 0\<close>: the bytes are compared in order and the
  first difference decides; a byte beyond the buffer is reached only when all bytes before
  it agree.
\<close>

fun memcmp_eq :: "ByteArray \<Rightarrow> int \<Rightarrow> byte list \<Rightarrow> fault + bool" where
  "memcmp_eq buf pos [] = Inr True"
| "memcmp_eq buf pos (c # cs) =
     (case byteAt buf pos of
        Inl f \<Rightarrow> Inl f
      | Inr b \<Rightarrow> (if b = c then memcmp_eq buf (pos + 1) cs else Inr False))"

definition arMagic :: "byte list" where
  "arMagic = [0x21, 0x3C, 0x61, 0x72, 0x63, 0x68, 0x3E, 0x0A]"

definition elfMagic :: "byte list" where
  "elfMagic = [0x7F, 0x45, 0x4C, 0x46]"

text \<open>
  The header of an archive member is 60 bytes: \<open>fileName\<close> at offset 0 (16 bytes),
  \<open>fileSize\<close> at offset 48 (10 bytes). \<open>arFileSize\<close> is the loop over \<open>fileSize\<close>,
  \<open>i\<close> counting the digits still to read: it stops at a space, and a character below
  \<open>'0'\<close> makes the size smaller.
\<close>

fun arFileSize :: "ByteArray \<Rightarrow> int \<Rightarrow> nat \<Rightarrow> int \<Rightarrow> fault + int" where
  "arFileSize buf p 0 sz = Inr sz"
| "arFileSize buf p (Suc i) sz =
     (case byteAt buf p of
        Inl f \<Rightarrow> Inl f
      | Inr c \<Rightarrow>
          (if c = 0x20 then Inr sz
           else arFileSize buf (p + 1) i (sz * 10 + (char_to_int plain_char_signed c - 48))))"

text \<open>
  The loop over \<open>fileName\<close>: the characters before the first space, at most 16, without
  one trailing slash; the buffer \<open>fileName\<close> is then read as a C string, which ends at
  its first NUL. The 16 bytes lie before \<open>fileSize\<close>, which has been read by then.
\<close>

definition arFileName :: "ByteArray \<Rightarrow> int \<Rightarrow> fault + byte list" where
  "arFileName buf p =
     (if p < 0 then Inl OutOfBounds
      else
        (let nm = takeWhile (\<lambda>c. c \<noteq> 0x20) (take 16 (drop (nat p) buf));
             nm' = (if length nm < 16 \<and> nm \<noteq> [] \<and> last nm = 0x2F then butlast nm else nm)
         in Inr (takeWhile (\<lambda>c. c \<noteq> 0) nm')))"

text \<open>
  The \<open>while\<close> loop of \<open>loadArArchive\<close> over the members. A size field may be negative,
  so \<open>pos\<close> need not grow and the loop need not end: \<open>None\<close> is the run that never
  returns.
\<close>

partial_function (option) arMembers ::
  "ByteArray \<Rightarrow> int \<Rightarrow> ArFileEntry list \<Rightarrow> (fault + ArFileEntry list) option" where
  "arMembers input pos result =
     (if pos < int (length input) then
        (case arFileSize input (pos + 48) 10 0 of
           Inl f \<Rightarrow> Some (Inl f)
         | Inr sz \<Rightarrow>
             (case memcmp_eq input (pos + 60) elfMagic of
                Inl f \<Rightarrow> Some (Inl f)
              | Inr isElf \<Rightarrow>
                  (case (if isElf
                         then (case arFileName input pos of
                                 Inl f \<Rightarrow> Inl f
                               | Inr fileName \<Rightarrow>
                                   (case mid input (pos + 60) sz of
                                      Inl f \<Rightarrow> Inl f
                                    | Inr d \<Rightarrow>
                                        Inr (result @
                                          [\<lparr>ar_name = convertUtf8ToWString fileName,
                                            ar_data = d\<rparr>])))
                         else Inr result) of
                     Inl f \<Rightarrow> Some (Inl f)
                   | Inr result' \<Rightarrow>
                       arMembers input
                         (if (pos + 60 + sz) smod 2 \<noteq> 0 then pos + 60 + sz + 1
                          else pos + 60 + sz)
                         result')))
      else Some (Inr result))"

text \<open>
  \<open>loadArArchive\<close>. The content of the file, \<open>ByteArray::fromFile(inputName)\<close>, is the
  second argument.
\<close>

definition loadArArchive :: "wstring \<Rightarrow> ByteArray \<Rightarrow> (fault + ArFileEntry list) option" where
  "loadArArchive inputName input =
     (case memcmp_eq input 0 arMagic of
        Inl f \<Rightarrow> Some (Inl f)
      | Inr isAr \<Rightarrow>
          (if \<not> isAr then
             (case memcmp_eq input 0 elfMagic of
                Inl f \<Rightarrow> Some (Inl f)
              | Inr isElf \<Rightarrow>
                  (if \<not> isElf then Some (Inr [])
                   else Some (Inr [\<lparr>ar_name = getFileNameFromPath inputName, ar_data = input\<rparr>])))
           else arMembers input 8 []))"

section \<open>ELF structures\<close>

text \<open>
  Modelled from the spec: the ELF reader (\<open>ElfFile\<close>, \<open>ElfSection\<close>), the structures
  \<open>Elf32_Sym\<close> and \<open>Elf32_Rel\<close> and the ELF constants, all declared in headers that are
  not among the sources. A relocation entry is \<open>(offset, info)\<close> with
  \<open>symbol_num = info >> 8\<close> and \<open>rel_type = info & 0xFF\<close>; a symbol is
  \<open>(name-index, value, size, info-byte, section-index)\<close>; the special section indices
  are \<open>SHN_ABS = 0xFFF1\<close> and \<open>SHN_COMMON = 0xFFF2\<close>; the symbol types are
  \<open>NOTYPE = 0\<close>, \<open>OBJECT = 1\<close>, \<open>FUNC = 2\<close>. The section types and the flag
  \<open>ALLOC\<close> have the numbers of the ELF format.
\<close>

record Elf32_Sym =
  st_name :: "32 word"
  st_value :: "32 word"
  st_size :: "32 word"
  st_info :: byte
  st_other :: byte
  st_shndx :: "16 word"

record Elf32_Rel =
  r_offset :: "32 word"
  r_info :: "32 word"

definition getSymbolNum :: "Elf32_Rel \<Rightarrow> int" where
  "getSymbolNum rel = uint (drop_bit 8 (r_info rel))"

definition getRelType :: "Elf32_Rel \<Rightarrow> int" where
  "getRelType rel = uint (r_info rel AND 0xFF)"

definition SHT_PROGBITS :: int where "SHT_PROGBITS = 1"
definition SHT_NOBITS :: int where "SHT_NOBITS = 8"
definition SHT_REL :: int where "SHT_REL = 9"
definition SHF_ALLOC :: "32 word" where "SHF_ALLOC = 2"
definition STT_NOTYPE :: int where "STT_NOTYPE = 0"
definition STT_OBJECT :: int where "STT_OBJECT = 1"
definition STT_FUNC :: int where "STT_FUNC = 2"
definition SHN_ABS :: int where "SHN_ABS = 0xFFF1"
definition SHN_COMMON :: int where "SHN_COMMON = 0xFFF2"

text \<open>
  A section as its accessors show it: \<open>getType()\<close>, \<open>getFlags()\<close>, \<open>getSize()\<close>,
  \<open>getAlignment()\<close>, \<open>getInfo()\<close> and \<open>getData()\<close>. The relocator stores the
  numbers in \<open>int\<close> variables.
\<close>

record ElfSection =
  sec_type :: int
  sec_flags :: "32 word"
  sec_size :: int
  sec_alignment :: int
  sec_info :: int
  sec_data :: ByteArray

record ElfFile =
  elf_sections :: "ElfSection list"
  elf_symbols :: "Elf32_Sym list"
  elf_strTable :: "byte list"

definition getSymbol :: "ElfFile \<Rightarrow> int \<Rightarrow> fault + Elf32_Sym" where
  "getSymbol elf i =
     (if 0 \<le> i \<and> i < int (length (elf_symbols elf)) then Inr (elf_symbols elf ! nat i)
      else Inl OutOfBounds)"

definition getStrTableString :: "ElfFile \<Rightarrow> 32 word \<Rightarrow> byte list" where
  "getStrTableString elf i = takeWhile (\<lambda>c. c \<noteq> 0) (drop (unat i) (elf_strTable elf))"

subsection \<open>The byte buffer, continued\<close>

definition getDoubleWord :: "ByteArray \<Rightarrow> int \<Rightarrow> fault + 32 word" where
  "getDoubleWord buf pos =
     (if 0 \<le> pos \<and> pos + 4 \<le> int (length buf) then
        Inr (ucast (buf ! nat pos)
             OR push_bit 8 (ucast (buf ! (nat pos + 1)))
             OR push_bit 16 (ucast (buf ! (nat pos + 2)))
             OR push_bit 24 (ucast (buf ! (nat pos + 3))))
      else Inl OutOfBounds)"

definition replaceDoubleWord :: "ByteArray \<Rightarrow> int \<Rightarrow> 32 word \<Rightarrow> fault + ByteArray" where
  "replaceDoubleWord buf pos w =
     (if 0 \<le> pos \<and> pos + 4 \<le> int (length buf) then
        Inr (take (nat pos) buf
             @ [ucast w, ucast (drop_bit 8 w), ucast (drop_bit 16 w), ucast (drop_bit 24 w)]
             @ drop (nat pos + 4) buf)
      else Inl OutOfBounds)"

text \<open>
  \<open>reserveBytes(n)\<close> zero-extends by \<open>n\<close>. The relocator passes the difference of two
  \<open>int\<close>s; a negative one is no count of bytes.
\<close>

definition reserveBytes :: "ByteArray \<Rightarrow> int \<Rightarrow> fault + ByteArray" where
  "reserveBytes buf n = (if n < 0 then Inl AllocFailure else Inr (buf @ replicate (nat n) 0))"

text \<open>\<open>memcpy(out.data(pos), src.data(), src.size())\<close>: the bytes of \<open>src\<close> over those of \<open>out\<close> from \<open>pos\<close> on.\<close>

definition memcpy_to :: "ByteArray \<Rightarrow> int \<Rightarrow> ByteArray \<Rightarrow> fault + ByteArray" where
  "memcpy_to out pos src =
     (if 0 \<le> pos \<and> pos + int (length src) \<le> int (length out) then
        Inr (take (nat pos) out @ src @ drop (nat pos + length src) out)
      else Inl OutOfBounds)"

text \<open>
  The array \<open>Elf32_Rel* rel\<close> laid over the bytes of the relocation section: entry
  \<open>i\<close> is the eight bytes from \<open>8 * i\<close>, two little-endian words.
\<close>

definition getRel :: "ByteArray \<Rightarrow> nat \<Rightarrow> fault + Elf32_Rel" where
  "getRel buf i =
     (case getDoubleWord buf (int (8 * i)) of
        Inl f \<Rightarrow> Inl f
      | Inr off \<Rightarrow>
          (case getDoubleWord buf (int (8 * i + 4)) of
             Inl f \<Rightarrow> Inl f
           | Inr info \<Rightarrow> Inr \<lparr>r_offset = off, r_info = info\<rparr>))"

section \<open>Collaborators of the relocator\<close>

text \<open>
  Modelled from the spec: the shared symbol table (\<open>Global.symbolTable\<close>, \<open>Label\<close>),
  whose classes are not among the sources. It supports label lookup by name and get/set of
  a label's value, definition flag, info bits and data-or-function classification. The
  table is an association list from names to labels; a \<open>Label*\<close> is the name it is
  stored under.
\<close>

record Label =
  label_value :: int
  label_defined :: bool
  label_isData :: bool
  label_info :: int

type_synonym SymbolTable = "(wstring \<times> Label) list"

definition getLabel :: "SymbolTable \<Rightarrow> wstring \<Rightarrow> Label option" where
  "getLabel tab symName = map_of tab symName"

definition setValue :: "SymbolTable \<Rightarrow> wstring \<Rightarrow> int \<Rightarrow> SymbolTable" where
  "setValue tab h v = map (\<lambda>(k, l). if k = h then (k, l\<lparr>label_value := v\<rparr>) else (k, l)) tab"

text \<open>
  The diagnostic sink: \<open>Logger::queueError(level, format, args...)\<close> appends to a queue.
  An entry keeps the format string of the source and its arguments.
\<close>

datatype level = Warning | Error

datatype fmt_arg = ArgInt int | ArgStr wstring

type_synonym diagnostic = "level \<times> wstring \<times> fmt_arg list"

definition queueError :: "diagnostic list \<Rightarrow> level \<Rightarrow> wstring \<Rightarrow> fmt_arg list \<Rightarrow> diagnostic list" where
  "queueError q lvl fmt args = q @ [(lvl, fmt, args)]"

text \<open>
  The architecture hook \<open>relocator\<close>. Its interface is not among the sources, so its two
  operations are parameters; each takes the \<open>RelocationData\<close> it is given by reference
  and returns the one it leaves. \<open>newRelocationData\<close> is the value of a
  \<open>RelocationData\<close> that has just been declared and not yet assigned.
\<close>

record RelocationData =
  opcodeOffset :: int
  opcode :: "32 word"
  relocationBase :: int
  targetSymbolType :: int
  targetSymbolInfo :: int
  symbolAddress :: int
  errorMessage :: wstring

record IElfRelocator =
  setSymbolAddress :: "RelocationData \<Rightarrow> 32 word \<Rightarrow> int \<Rightarrow> RelocationData"
  relocateOpcode :: "int \<Rightarrow> RelocationData \<Rightarrow> bool \<times> RelocationData"
  newRelocationData :: RelocationData

section \<open>The relocator\<close>

record ElfRelocatorSection =
  elfSection :: ElfSection
  index :: int
  relSection :: "ElfSection option"

record ElfRelocatorSymbol =
  sym_label :: "wstring option"
  sym_name :: wstring
  relativeAddress :: int
  relocatedAddress :: int
  sym_section :: int
  sym_size :: int
  sym_type :: int

record ElfRelocatorFile =
  elf :: ElfFile
  sections :: "ElfRelocatorSection list"
  symbols :: "ElfRelocatorSymbol list"
  file_name :: wstring

text \<open>
  What a pass reads and writes: the members \<open>files\<close>, \<open>outputData\<close> and
  \<open>dataChanged\<close> of the relocator, the global symbol table and the queue of the logger.
\<close>

record State =
  files :: "ElfRelocatorFile list"
  outputData :: ByteArray
  dataChanged :: bool
  symbolTable :: SymbolTable
  queue :: "diagnostic list"

subsection \<open>relocateFile, phase A: the address of each section\<close>

text \<open>
  \<open>while (relocationAddress % alignment) relocationAddress++;\<close> The remainder of C
  truncates towards zero (\<open>smod\<close>); with a zero divisor the C++ has no defined result.
  For a nonzero alignment the loop ends at the next multiple of it.
\<close>

function alignUp :: "int \<Rightarrow> int \<Rightarrow> fault + int" where
  "alignUp addr a =
     (if a = 0 then Inl DivisionByZero
      else if addr smod a \<noteq> 0 then alignUp (addr + 1) a
      else Inr addr)"
  by pat_completeness auto
termination
proof (relation "measure (\<lambda>(addr, a). nat ((- addr) mod \<bar>a\<bar>))")
  show "wf (measure (\<lambda>(addr, a). nat ((- addr) mod \<bar>a\<bar>)))" by simp
next
  fix addr a :: int
  assume a: "a \<noteq> 0" and r: "addr smod a \<noteq> 0"
  have pos: "0 < \<bar>a\<bar>" using a by simp
  have nd: "(- addr) mod \<bar>a\<bar> \<noteq> 0"
  proof
    assume "(- addr) mod \<bar>a\<bar> = 0"
    then have "\<bar>a\<bar> dvd - addr" by (simp only: dvd_eq_mod_eq_0)
    then have "\<bar>a\<bar> dvd \<bar>addr\<bar>" by simp
    then have "\<bar>addr\<bar> mod \<bar>a\<bar> = 0" by (simp only: dvd_eq_mod_eq_0)
    then have "addr smod a = 0" by (simp only: smod_int_alt_def mult_zero_right)
    with r show False by simp
  qed
  have ge: "0 \<le> (- addr) mod \<bar>a\<bar>" using pos by (rule pos_mod_sign)
  have lt: "(- addr) mod \<bar>a\<bar> < \<bar>a\<bar>" using pos by (rule pos_mod_bound)
  have "(- (addr + 1)) mod \<bar>a\<bar> = (- addr - 1) mod \<bar>a\<bar>" by simp
  also have "\<dots> = ((- addr) mod \<bar>a\<bar> - 1) mod \<bar>a\<bar>"
    by (simp only: mod_diff_left_eq)
  also have "\<dots> = (- addr) mod \<bar>a\<bar> - 1"
    using nd ge lt by (intro mod_pos_pos_trivial) linarith+
  finally have "(- (addr + 1)) mod \<bar>a\<bar> = (- addr) mod \<bar>a\<bar> - 1" .
  with nd ge show "((addr + 1, a), (addr, a)) \<in> measure (\<lambda>(addr, a). nat ((- addr) mod \<bar>a\<bar>))"
    by simp
qed

declare alignUp.simps [simp del]

text \<open>
  \<open>std::map<int,int> relocationOffsets\<close> is read with \<open>operator[]\<close> only, which gives 0
  for a key that is not in the map.
\<close>

definition offsetAt :: "(int \<rightharpoonup> int) \<Rightarrow> int \<Rightarrow> int" where
  "offsetAt relocationOffsets k = (case relocationOffsets k of None \<Rightarrow> 0 | Some v \<Rightarrow> v)"

fun placeSections ::
  "ElfRelocatorSection list \<Rightarrow> int \<Rightarrow> (int \<rightharpoonup> int) \<Rightarrow> fault + (int \<times> (int \<rightharpoonup> int))" where
  "placeSections [] relocationAddress relocationOffsets = Inr (relocationAddress, relocationOffsets)"
| "placeSections (entry # rest) relocationAddress relocationOffsets =
     (case alignUp relocationAddress (sec_alignment (elfSection entry)) of
        Inl f \<Rightarrow> Inl f
      | Inr a \<Rightarrow>
          placeSections rest (a + sec_size (elfSection entry)) (relocationOffsets(index entry \<mapsto> a)))"

subsection \<open>relocateFile, phase B: loading and patching the sections\<close>

text \<open>
  The branch on externs (the \<open>if\<close> after \<open>setSymbolAddress\<close>): it ends either with the
  diagnostic of a \<open>continue\<close> or with \<open>relData\<close> holding its \<open>relocationBase\<close>,
  unless the lowercasing of the name is a fault.
\<close>

definition setRelocationBase ::
  "ElfFile \<Rightarrow> SymbolTable \<Rightarrow> (int \<rightharpoonup> int) \<Rightarrow> Elf32_Sym \<Rightarrow> RelocationData
     \<Rightarrow> fault + (diagnostic + RelocationData)" where
  "setRelocationBase e tab relocationOffsets symbol relData =
     (let symSection = uint (st_shndx symbol) in
      if targetSymbolType relData = STT_NOTYPE \<and> st_shndx symbol = 0 then
        (case toWLowercase (getStrTableString e (st_name symbol)) of
           Inl f \<Rightarrow> Inl f
         | Inr symName \<Rightarrow>
             (case getLabel tab symName of
                None \<Rightarrow> Inr (Inl (Error, L ''Invalid external symbol %s'', [ArgStr symName]))
              | Some label \<Rightarrow>
                  (if label_defined label = False
                   then Inr (Inl (Error, L ''Undefined external symbol %s'', [ArgStr symName]))
                   else Inr (Inr (relData\<lparr>relocationBase := label_value label,
                                targetSymbolType := (if label_isData label then STT_OBJECT else STT_FUNC),
                                targetSymbolInfo := label_info label\<rparr>)))))
      else Inr (Inr (relData\<lparr>relocationBase :=
                                offsetAt relocationOffsets symSection + symbolAddress relData\<rparr>)))"

text \<open>
  The \<open>RelocationData\<close> of an entry before the branch on externs: declared, given the
  opcode word \<open>w\<close> read at \<open>pos\<close> and the offset of that word, and passed through
  \<open>setSymbolAddress\<close> with the value and the type of the symbol.
\<close>

definition prepareRelData ::
  "IElfRelocator \<Rightarrow> (int \<rightharpoonup> int) \<Rightarrow> int \<Rightarrow> int \<Rightarrow> Elf32_Sym \<Rightarrow> 32 word \<Rightarrow> RelocationData" where
  "prepareRelData R relocationOffsets idx pos symbol w =
     setSymbolAddress R
       ((newRelocationData R)\<lparr>opcode := w, opcodeOffset := pos + offsetAt relocationOffsets idx\<rparr>)
       (st_value symbol) (uint (st_info symbol AND 0xF))"

text \<open>
  The body of the loop over the relocation entries, for the entry \<open>rel\<close>. The variables
  it changes are the working copy \<open>sectionData\<close>, the flag \<open>error\<close> and the queue.
\<close>

definition relocateEntry ::
  "IElfRelocator \<Rightarrow> ElfFile \<Rightarrow> SymbolTable \<Rightarrow> (int \<rightharpoonup> int) \<Rightarrow> int \<Rightarrow> Elf32_Rel
     \<Rightarrow> ByteArray \<times> bool \<times> diagnostic list \<Rightarrow> fault + ByteArray \<times> bool \<times> diagnostic list" where
  "relocateEntry R e tab relocationOffsets idx rel s =
     (case s of (sectionData, error, q) \<Rightarrow>
      (let pos = sint (r_offset rel); symNum = getSymbolNum rel in
       if symNum \<le> 0 then
         Inr (sectionData, True, queueError q Warning (L ''Invalid symbol num %06X'') [ArgInt symNum])
       else
         (case getSymbol e symNum of
            Inl f \<Rightarrow> Inl f
          | Inr symbol \<Rightarrow>
              (case getDoubleWord sectionData pos of
                 Inl f \<Rightarrow> Inl f
               | Inr w \<Rightarrow>
                   (let relData = prepareRelData R relocationOffsets idx pos symbol w in
                    case setRelocationBase e tab relocationOffsets symbol relData of
                      Inl f \<Rightarrow> Inl f
                    | Inr (Inl (lvl, fmt, args)) \<Rightarrow>
                        Inr (sectionData, True, queueError q lvl fmt args)
                    | Inr (Inr relData') \<Rightarrow>
                        (case relocateOpcode R (getRelType rel) relData' of
                           (ok, relData'') \<Rightarrow>
                             (if ok = False
                              then Inr (sectionData, True,
                                        queueError q Error (errorMessage relData'') [])
                              else
                                (case replaceDoubleWord sectionData pos (opcode relData'') of
                                   Inl f \<Rightarrow> Inl f
                                 | Inr sectionData' \<Rightarrow> Inr (sectionData', error, q)))))))))"

text \<open>The loop \<open>for (i = 0; i < relCount; i++)\<close> over the entries \<open>rel[i]\<close>.\<close>

fun relocateEntries ::
  "IElfRelocator \<Rightarrow> ElfFile \<Rightarrow> SymbolTable \<Rightarrow> (int \<rightharpoonup> int) \<Rightarrow> int \<Rightarrow> ByteArray \<Rightarrow> nat list
     \<Rightarrow> ByteArray \<times> bool \<times> diagnostic list \<Rightarrow> fault + ByteArray \<times> bool \<times> diagnostic list" where
  "relocateEntries R e tab relocationOffsets idx relBytes [] s = Inr s"
| "relocateEntries R e tab relocationOffsets idx relBytes (i # rest) s =
     (case getRel relBytes i of
        Inl f \<Rightarrow> Inl f
      | Inr rel \<Rightarrow>
          (case relocateEntry R e tab relocationOffsets idx rel s of
             Inl f \<Rightarrow> Inl f
           | Inr s' \<Rightarrow> relocateEntries R e tab relocationOffsets idx relBytes rest s'))"

text \<open>
  The body of the loop "load sections" for one section. The variables it changes are
  \<open>outputData\<close>, the flag \<open>error\<close> and the queue.
\<close>

definition loadSection ::
  "IElfRelocator \<Rightarrow> ElfFile \<Rightarrow> SymbolTable \<Rightarrow> (int \<rightharpoonup> int) \<Rightarrow> int \<Rightarrow> int \<Rightarrow> ElfRelocatorSection
     \<Rightarrow> ByteArray \<times> bool \<times> diagnostic list \<Rightarrow> fault + ByteArray \<times> bool \<times> diagnostic list" where
  "loadSection R e tab relocationOffsets start dataStart entry s =
     (case s of (out, error, q) \<Rightarrow>
      if sec_type (elfSection entry) = SHT_NOBITS then Inr (out, error, q)
      else
        (case (case relSection entry of
                 None \<Rightarrow> Inr (sec_data (elfSection entry), error, q)
               | Some rs \<Rightarrow>
                   relocateEntries R e tab relocationOffsets (index entry) (sec_data rs)
                     [0 ..< nat (sec_size rs sdiv 8)]
                     (sec_data (elfSection entry), error, q)) of
           Inl f \<Rightarrow> Inl f
         | Inr (sectionData, error', q') \<Rightarrow>
             (case memcpy_to out (dataStart + offsetAt relocationOffsets (index entry) - start)
                     sectionData of
                Inl f \<Rightarrow> Inl f
              | Inr out' \<Rightarrow> Inr (out', error', q'))))"

fun loadSections ::
  "IElfRelocator \<Rightarrow> ElfFile \<Rightarrow> SymbolTable \<Rightarrow> (int \<rightharpoonup> int) \<Rightarrow> int \<Rightarrow> int
     \<Rightarrow> ElfRelocatorSection list
     \<Rightarrow> ByteArray \<times> bool \<times> diagnostic list \<Rightarrow> fault + ByteArray \<times> bool \<times> diagnostic list" where
  "loadSections R e tab relocationOffsets start dataStart [] s = Inr s"
| "loadSections R e tab relocationOffsets start dataStart (entry # rest) s =
     (case loadSection R e tab relocationOffsets start dataStart entry s of
        Inl f \<Rightarrow> Inl f
      | Inr s' \<Rightarrow> loadSections R e tab relocationOffsets start dataStart rest s')"

subsection \<open>relocateFile, phase C: the addresses of the symbols\<close>

text \<open>
  The body of the loop "now update symbols" for one symbol: the \<open>switch\<close> on its section,
  then the label and the flag \<open>dataChanged\<close>.
\<close>

definition updateSymbol ::
  "(int \<rightharpoonup> int) \<Rightarrow> ElfRelocatorSymbol \<Rightarrow> int \<Rightarrow> State
     \<Rightarrow> fault + ElfRelocatorSymbol \<times> int \<times> State" where
  "updateSymbol relocationOffsets symbol relocationAddress st =
     (let oldAddress = relocatedAddress symbol in
      case (if sym_section symbol = SHN_ABS then
              Inr (symbol\<lparr>relocatedAddress := relativeAddress symbol\<rparr>, relocationAddress, outputData st)
            else if sym_section symbol = SHN_COMMON then
              (case alignUp relocationAddress (relativeAddress symbol) of
                 Inl f \<Rightarrow> Inl f
               | Inr a \<Rightarrow>
                   (case reserveBytes (outputData st) (a + sym_size symbol - relocationAddress) of
                      Inl f \<Rightarrow> Inl f
                    | Inr out \<Rightarrow> Inr (symbol\<lparr>relocatedAddress := a\<rparr>, a + sym_size symbol, out)))
            else
              Inr (symbol\<lparr>relocatedAddress :=
                          relativeAddress symbol + offsetAt relocationOffsets (sym_section symbol)\<rparr>,
                   relocationAddress, outputData st)) of
        Inl f \<Rightarrow> Inl f
      | Inr (symbol', relocationAddress', out) \<Rightarrow>
          Inr (symbol', relocationAddress',
               st\<lparr>outputData := out,
                   symbolTable :=
                     (case sym_label symbol' of
                        None \<Rightarrow> symbolTable st
                      | Some l \<Rightarrow> setValue (symbolTable st) l (relocatedAddress symbol')),
                   dataChanged :=
                     (if oldAddress \<noteq> relocatedAddress symbol' then True else dataChanged st)\<rparr>))"

fun updateSymbols ::
  "(int \<rightharpoonup> int) \<Rightarrow> ElfRelocatorSymbol list \<Rightarrow> int \<Rightarrow> State
     \<Rightarrow> fault + ElfRelocatorSymbol list \<times> int \<times> State" where
  "updateSymbols relocationOffsets [] relocationAddress st = Inr ([], relocationAddress, st)"
| "updateSymbols relocationOffsets (symbol # rest) relocationAddress st =
     (case updateSymbol relocationOffsets symbol relocationAddress st of
        Inl f \<Rightarrow> Inl f
      | Inr (symbol', relocationAddress', st') \<Rightarrow>
          (case updateSymbols relocationOffsets rest relocationAddress' st' of
             Inl f \<Rightarrow> Inl f
           | Inr (rest', relocationAddress'', st'') \<Rightarrow>
               Inr (symbol' # rest', relocationAddress'', st'')))"

subsection \<open>relocateFile and relocate\<close>

text \<open>
  \<open>relocateFile\<close> returns \<open>!error\<close>, the file with its symbols updated, the new value of
  the reference parameter \<open>relocationAddress\<close>, and the state.
\<close>

definition relocateFile ::
  "IElfRelocator \<Rightarrow> ElfRelocatorFile \<Rightarrow> int \<Rightarrow> State
     \<Rightarrow> fault + bool \<times> ElfRelocatorFile \<times> int \<times> State" where
  "relocateFile R file relocationAddress st =
     (let start = relocationAddress in
      case placeSections (sections file) relocationAddress Map.empty of
        Inl f \<Rightarrow> Inl f
      | Inr (relocationAddress1, relocationOffsets) \<Rightarrow>
          (let dataStart = int (length (outputData st)) in
           case reserveBytes (outputData st) (relocationAddress1 - start) of
             Inl f \<Rightarrow> Inl f
           | Inr out \<Rightarrow>
               (case loadSections R (elf file) (symbolTable st) relocationOffsets start dataStart
                       (sections file) (out, False, queue st) of
                  Inl f \<Rightarrow> Inl f
                | Inr (out', error, q) \<Rightarrow>
                    (case updateSymbols relocationOffsets (symbols file) relocationAddress1
                            (st\<lparr>outputData := out', queue := q\<rparr>) of
                       Inl f \<Rightarrow> Inl f
                     | Inr (syms, relocationAddress2, st') \<Rightarrow>
                         Inr (\<not> error, file\<lparr>symbols := syms\<rparr>, relocationAddress2, st')))))"

text \<open>The loop of \<open>relocate\<close> over the files.\<close>

fun relocateFiles ::
  "IElfRelocator \<Rightarrow> ElfRelocatorFile list \<Rightarrow> int \<Rightarrow> State \<Rightarrow> bool
     \<Rightarrow> fault + ElfRelocatorFile list \<times> int \<times> State \<times> bool" where
  "relocateFiles R [] memoryAddress st error = Inr ([], memoryAddress, st, error)"
| "relocateFiles R (file # rest) memoryAddress st error =
     (case relocateFile R file memoryAddress st of
        Inl f \<Rightarrow> Inl f
      | Inr (ok, file', memoryAddress', st') \<Rightarrow>
          (case relocateFiles R rest memoryAddress' st' (if ok = False then True else error) of
             Inl f \<Rightarrow> Inl f
           | Inr (rest', memoryAddress'', st'', error') \<Rightarrow>
               Inr (file' # rest', memoryAddress'', st'', error')))"

text \<open>
  \<open>relocate\<close> returns \<open>!error\<close>, the value it leaves in the caller's \<open>memoryAddress\<close>,
  and the state. \<open>getCrc32\<close> is declared in \<open>Util/CRC.h\<close>, which is not among the
  sources: the digest is the parameter \<open>crc\<close>.
\<close>

definition relocate ::
  "IElfRelocator \<Rightarrow> (ByteArray \<Rightarrow> 32 word) \<Rightarrow> int \<Rightarrow> State \<Rightarrow> fault + bool \<times> int \<times> State" where
  "relocate R crc memoryAddress st =
     (let oldCrc = crc (outputData st);
          st0 = st\<lparr>outputData := [], dataChanged := False\<rparr>;
          start = memoryAddress in
      case relocateFiles R (files st0) memoryAddress st0 False of
        Inl f \<Rightarrow> Inl f
      | Inr (fs, memoryAddress', st1, error) \<Rightarrow>
          (let newCrc = crc (outputData st1);
               st2 = (if oldCrc \<noteq> newCrc then st1\<lparr>dataChanged := True\<rparr> else st1) in
           Inr (\<not> error, memoryAddress' - start, st2\<lparr>files := fs\<rparr>)))"

section \<open>Example inputs\<close>

text \<open>
  A hook in the manner of an absolute 32-bit relocation: the symbol address is the symbol
  value, the type is the symbol type, and the opcode word grows by the relocation base.
\<close>

definition exRelocator :: IElfRelocator where
  "exRelocator =
     \<lparr>setSymbolAddress = (\<lambda>rd a t. rd\<lparr>symbolAddress := uint a, targetSymbolType := t\<rparr>),
      relocateOpcode = (\<lambda>t rd. (True, rd\<lparr>opcode := opcode rd + word_of_int (relocationBase rd)\<rparr>)),
      newRelocationData = \<lparr>opcodeOffset = 0, opcode = 0, relocationBase = 0, targetSymbolType = 0,
        targetSymbolInfo = 0, symbolAddress = 0, errorMessage = []\<rparr>\<rparr>"

text \<open>Two loadable sections: alignment 4 and size 5, alignment 16 and size 3.\<close>

definition exText :: ElfRelocatorSection where
  "exText = \<lparr>elfSection = \<lparr>sec_type = SHT_PROGBITS, sec_flags = SHF_ALLOC, sec_size = 5,
                 sec_alignment = 4, sec_info = 0, sec_data = [1, 2, 3, 4, 5]\<rparr>,
              index = 1, relSection = None\<rparr>"

definition exBss :: ElfRelocatorSection where
  "exBss = \<lparr>elfSection = \<lparr>sec_type = SHT_NOBITS, sec_flags = SHF_ALLOC, sec_size = 3,
                sec_alignment = 16, sec_info = 0, sec_data = []\<rparr>,
             index = 2, relSection = None\<rparr>"

text \<open>
  An OBJECT symbol in common storage, with the alignment 8 in its value and the size 16; a
  file of the two sections and this symbol; and a state as \<open>exportSymbols\<close> leaves it,
  the label of the symbol defined with the value 0.
\<close>

definition exCommon :: ElfRelocatorSymbol where
  "exCommon = \<lparr>sym_label = Some (L ''buf''), sym_name = L ''buf'', relativeAddress = 8,
                 relocatedAddress = 0, sym_section = SHN_COMMON, sym_size = 16,
                 sym_type = STT_OBJECT\<rparr>"

definition exFile :: ElfRelocatorFile where
  "exFile = \<lparr>elf = \<lparr>elf_sections = [], elf_symbols = [], elf_strTable = []\<rparr>,
               sections = [exText, exBss], symbols = [exCommon], file_name = L ''foo.o''\<rparr>"

definition exState :: State where
  "exState = \<lparr>files = [exFile], outputData = [], dataChanged = False,
                symbolTable = [(L ''buf'', \<lparr>label_value = 0, label_defined = True,
                                              label_isData = True, label_info = 0\<rparr>)],
                queue = []\<rparr>"

text \<open>A stand-in for the digest \<open>getCrc32\<close>, where an example needs one.\<close>

definition exDigest :: "ByteArray \<Rightarrow> 32 word" where
  "exDigest bs = foldl (\<lambda>h b. 33 * h + ucast b) 5381 bs"

text \<open>
  An object with three symbols: the null symbol, the undefined global \<open>Ext\<close> without a
  type, and the local object \<open>loc\<close> with the value 4 in section 7, which is not loaded.
  Its code section of two words has three relocation entries: the word at 0 against
  \<open>Ext\<close>, the word at 4 against symbol 0, and the word at 4 against \<open>loc\<close>.
\<close>

definition exSymExt :: Elf32_Sym where
  "exSymExt = \<lparr>st_name = 1, st_value = 0, st_size = 0, st_info = 0x10, st_other = 0, st_shndx = 0\<rparr>"

definition exSymLoc :: Elf32_Sym where
  "exSymLoc = \<lparr>st_name = 5, st_value = 4, st_size = 4, st_info = 0x01, st_other = 0, st_shndx = 7\<rparr>"

definition exElf :: ElfFile where
  "exElf = \<lparr>elf_sections = [],
             elf_symbols =
               [\<lparr>st_name = 0, st_value = 0, st_size = 0, st_info = 0, st_other = 0, st_shndx = 0\<rparr>,
                exSymExt, exSymLoc],
             elf_strTable = [0, 0x45, 0x78, 0x74, 0, 0x6C, 0x6F, 0x63, 0]\<rparr>"

definition exRelExt :: Elf32_Rel where
  "exRelExt = \<lparr>r_offset = 0, r_info = 0x102\<rparr>"

definition exRelNull :: Elf32_Rel where
  "exRelNull = \<lparr>r_offset = 4, r_info = 0x002\<rparr>"

definition exRelLoc :: Elf32_Rel where
  "exRelLoc = \<lparr>r_offset = 4, r_info = 0x202\<rparr>"

definition exRelBytes :: ByteArray where
  "exRelBytes = [0, 0, 0, 0, 2, 1, 0, 0,  4, 0, 0, 0, 2, 0, 0, 0,  4, 0, 0, 0, 2, 2, 0, 0]"

definition exCode :: ElfRelocatorSection where
  "exCode = \<lparr>elfSection = \<lparr>sec_type = SHT_PROGBITS, sec_flags = SHF_ALLOC, sec_size = 8,
                 sec_alignment = 4, sec_info = 0, sec_data = [0x10, 0, 0, 0, 0x20, 0, 0, 0]\<rparr>,
              index = 1,
              relSection = Some \<lparr>sec_type = SHT_REL, sec_flags = 0, sec_size = 24,
                 sec_alignment = 4, sec_info = 1, sec_data = exRelBytes\<rparr>\<rparr>"

definition exObject :: ElfRelocatorFile where
  "exObject = \<lparr>elf = exElf, sections = [exCode], symbols = [], file_name = L ''bar.o''\<rparr>"

text \<open>Three symbol tables: \<open>ext\<close> defined with the value 0x2000, declared only, and absent.\<close>

definition exDefined :: SymbolTable where
  "exDefined = [(L ''ext'', \<lparr>label_value = 0x2000, label_defined = True, label_isData = False,
                              label_info = 0\<rparr>)]"

definition exDeclared :: SymbolTable where
  "exDeclared = [(L ''ext'', \<lparr>label_value = 0, label_defined = False, label_isData = False,
                               label_info = 0\<rparr>)]"

definition exLinked :: State where
  "exLinked = \<lparr>files = [exObject], outputData = [], dataChanged = False,
                 symbolTable = exDefined, queue = []\<rparr>"

section \<open>Notions for stating the properties of repeated passes\<close>

text \<open>
  A symbol and a file without the addresses a pass has computed, for saying that two states
  hold the same objects.
\<close>

definition stripAddress :: "ElfRelocatorSymbol \<Rightarrow> ElfRelocatorSymbol" where
  "stripAddress s = s\<lparr>relocatedAddress := 0\<rparr>"

definition stripFile :: "ElfRelocatorFile \<Rightarrow> ElfRelocatorFile" where
  "stripFile f = f\<lparr>symbols := map stripAddress (symbols f)\<rparr>"

text \<open>
  The calls \<open>label->setValue(relocatedAddress)\<close> of a pass, in their order, read off the
  symbols the pass leaves: one for every symbol that has a label. \<open>setValues\<close> makes
  the calls of such a list one after the other.
\<close>

definition symbolWrites :: "ElfRelocatorSymbol list \<Rightarrow> (wstring \<times> int) list" where
  "symbolWrites syms =
     concat (map (\<lambda>s. case sym_label s of None \<Rightarrow> [] | Some l \<Rightarrow> [(l, relocatedAddress s)])
               syms)"

definition labelWrites :: "ElfRelocatorFile list \<Rightarrow> (wstring \<times> int) list" where
  "labelWrites fs = concat (map (\<lambda>f. symbolWrites (symbols f)) fs)"

definition setValues :: "SymbolTable \<Rightarrow> (wstring \<times> int) list \<Rightarrow> SymbolTable" where
  "setValues tab ws = foldl (\<lambda>t (l, v). setValue t l v) tab ws"

text \<open>
  Two objects: the first has one relocation against the undefined \<open>Ext\<close>, the second
  defines the object \<open>ext\<close> at the start of its data section; its argument is the
  \<open>relocatedAddress\<close> the symbol holds. \<open>exExported\<close> is a state before the first
  pass: no output yet, the symbol and its label with the value 0. \<open>exFirst\<close> and
  \<open>exSettled\<close> are the states the first and the second pass from 0x1000 leave.
\<close>

definition exCallerCode :: ElfRelocatorSection where
  "exCallerCode =
     \<lparr>elfSection = \<lparr>sec_type = SHT_PROGBITS, sec_flags = SHF_ALLOC, sec_size = 8,
        sec_alignment = 4, sec_info = 0, sec_data = [0x10, 0, 0, 0, 0x20, 0, 0, 0]\<rparr>,
      index = 1,
      relSection = Some \<lparr>sec_type = SHT_REL, sec_flags = 0, sec_size = 8,
        sec_alignment = 4, sec_info = 1, sec_data = [0, 0, 0, 0, 2, 1, 0, 0]\<rparr>\<rparr>"

definition exCaller :: ElfRelocatorFile where
  "exCaller = \<lparr>elf = exElf, sections = [exCallerCode], symbols = [], file_name = L ''call.o''\<rparr>"

definition exDataSection :: ElfRelocatorSection where
  "exDataSection =
     \<lparr>elfSection = \<lparr>sec_type = SHT_PROGBITS, sec_flags = SHF_ALLOC, sec_size = 4,
        sec_alignment = 4, sec_info = 0, sec_data = [1, 2, 3, 4]\<rparr>,
      index = 1, relSection = None\<rparr>"

definition exExtSymbol :: "int \<Rightarrow> ElfRelocatorSymbol" where
  "exExtSymbol u = \<lparr>sym_label = Some (L ''ext''), sym_name = L ''ext'', relativeAddress = 0,
                      relocatedAddress = u, sym_section = 1, sym_size = 4,
                      sym_type = STT_OBJECT\<rparr>"

definition exProvider :: "int \<Rightarrow> ElfRelocatorFile" where
  "exProvider u = \<lparr>elf = \<lparr>elf_sections = [], elf_symbols = [], elf_strTable = []\<rparr>,
                     sections = [exDataSection], symbols = [exExtSymbol u],
                     file_name = L ''data.o''\<rparr>"

definition exExtLabel :: "int \<Rightarrow> SymbolTable" where
  "exExtLabel v = [(L ''ext'', \<lparr>label_value = v, label_defined = True, label_isData = True,
                                 label_info = 0\<rparr>)]"

definition exExported :: State where
  "exExported = \<lparr>files = [exCaller, exProvider 0], outputData = [], dataChanged = False,
                   symbolTable = exExtLabel 0, queue = []\<rparr>"

definition exFirst :: State where
  "exFirst = \<lparr>files = [exCaller, exProvider 0x1008],
                outputData = [0x10, 0, 0, 0, 0x20, 0, 0, 0, 1, 2, 3, 4],
                dataChanged = True, symbolTable = exExtLabel 0x1008, queue = []\<rparr>"

definition exSettled :: State where
  "exSettled = \<lparr>files = [exCaller, exProvider 0x1008],
                  outputData = [0x18, 0x10, 0, 0, 0x20, 0, 0, 0, 1, 2, 3, 4],
                  dataChanged = True, symbolTable = exExtLabel 0x1008, queue = []\<rparr>"

section \<open>Properties of the character helpers and the archive reader\<close>

lemma sint_byte: "sint (c :: byte) = (if c < 0x80 then uint c else uint c - 256)"
proof -
  have b: "0 \<le> uint c" "uint c < 256"
    using uint_lt2p [of c] by simp_all
  have s: "sint c = (uint c + 128) mod 256 - 128"
    by (simp add: sint_uint signed_take_bit_eq_take_bit_shift take_bit_eq_mod)
  have lt: "c < 0x80 \<longleftrightarrow> uint c < 128" by (simp add: word_less_def)
  show ?thesis
  proof (cases "uint c < 128")
    case True
    then have "(uint c + 128) mod 256 = uint c + 128"
      using b by (intro mod_pos_pos_trivial) linarith+
    with s lt True show ?thesis by simp
  next
    case False
    have "(uint c + 128) mod 256 = (uint c - 128 + 256) mod 256"
      by (rule arg_cong [where f = "\<lambda>x. x mod 256"]) linarith
    also have "\<dots> = (uint c - 128) mod 256" by (simp only: mod_add_self2)
    also have "\<dots> = uint c - 128"
      using b False by (intro mod_pos_pos_trivial) linarith+
    finally show ?thesis using s lt False by simp
  qed
qed

lemma tolower_c_char:
  "0 \<le> k \<Longrightarrow> k < 256 \<Longrightarrow>
   tolower_c (if sg then (if k < 128 then k else k - 256) else k) =
     (if sg \<and> 128 \<le> k \<and> k < 255 then Inl OutOfDomain
      else if sg \<and> k = 255 then Inr (- 1)
      else Inr (if 65 \<le> k \<and> k \<le> 90 then k + 32 else k))"
  by (auto simp: tolower_c_def EOF_def)

lemma toWLowercase_byte:
  "tolower_c (char_to_int sg c) =
     (if sg \<and> 0x80 \<le> c \<and> c < 0xFF then Inl OutOfDomain
      else if sg \<and> c = 0xFF then Inr (- 1)
      else Inr (if 0x41 \<le> c \<and> c \<le> 0x5A then uint c + 32 else uint c))"
proof -
  have b: "0 \<le> uint c" "uint c < 256"
    using uint_lt2p [of c] by simp_all
  have le1: "0x41 \<le> c \<longleftrightarrow> 65 \<le> uint c" by (simp add: word_le_def)
  have le2: "c \<le> 0x5A \<longleftrightarrow> uint c \<le> 90" by (simp add: word_le_def)
  have le3: "0x80 \<le> c \<longleftrightarrow> 128 \<le> uint c" by (simp add: word_le_def)
  have lt: "c < 0x80 \<longleftrightarrow> uint c < 128" by (simp add: word_less_def)
  have lt2: "c < 0xFF \<longleftrightarrow> uint c < 255" by (simp add: word_less_def)
  have eq: "c = 0xFF \<longleftrightarrow> uint c = 255" by (simp add: word_uint_eq_iff)
  show ?thesis
    unfolding char_to_int_def sint_byte le1 le2 le3 lt lt2 eq
    using b by (rule tolower_c_char)
qed

lemma word_of_int_lower:
  "(word_of_int (if P then uint (c :: byte) + 32 else uint c) :: wchar) =
     (if P then ucast c + 0x20 else ucast c)"
proof -
  have "(word_of_int (uint c + 32) :: wchar) = word_of_int (uint c) + word_of_int 32"
    by (rule wi_hom_add [symmetric])
  also have "(word_of_int (uint c) :: wchar) = ucast c" by (rule ucast_eq [symmetric])
  also have "(word_of_int 32 :: wchar) = 0x20" by simp
  finally have 1: "(word_of_int (uint c + 32) :: wchar) = ucast c + 0x20" .
  have 2: "(word_of_int (uint c) :: wchar) = ucast c" by (rule ucast_eq [symmetric])
  show ?thesis by (cases P) (simp_all only: 1 2 if_True if_False)
qed

lemma toWLowercase_loop_defined:
  "\<forall>c \<in> set str. \<not> (sg \<and> 0x80 \<le> c) \<Longrightarrow>
   toWLowercase_loop sg str acc =
     Inr (acc @ map (\<lambda>c. if 0x41 \<le> c \<and> c \<le> 0x5A then ucast c + 0x20 else ucast c) str)"
proof (induction str arbitrary: acc)
  case Nil
  then show ?case by simp
next
  case (Cons c rest)
  from Cons.prems have c: "\<not> (sg \<and> 0x80 \<le> c)" and r: "\<forall>c \<in> set rest. \<not> (sg \<and> 0x80 \<le> c)"
    by simp_all
  have n: "\<not> (sg \<and> c = 0xFF)" using c by auto
  have t: "tolower_c (char_to_int sg c) =
      Inr (if 0x41 \<le> c \<and> c \<le> 0x5A then uint c + 32 else uint c)"
    using c n by (simp only: toWLowercase_byte) auto
  have u: "(word_of_int (if 0x41 \<le> c \<and> c \<le> 0x5A then uint c + 32 else uint c) :: wchar) =
      (if 0x41 \<le> c \<and> c \<le> 0x5A then ucast c + 0x20 else ucast c)"
    by (rule word_of_int_lower)
  have "toWLowercase_loop sg (c # rest) acc =
      toWLowercase_loop sg rest
        (acc @ [if 0x41 \<le> c \<and> c \<le> 0x5A then ucast c + 0x20 else ucast c])"
    by (simp only: toWLowercase_loop.simps t sum.case u)
  also have "\<dots> = Inr ((acc @ [if 0x41 \<le> c \<and> c \<le> 0x5A then ucast c + 0x20 else ucast c])
      @ map (\<lambda>c. if 0x41 \<le> c \<and> c \<le> 0x5A then ucast c + 0x20 else ucast c) rest)"
    by (rule Cons.IH [OF r])
  finally show ?case by simp
qed

text \<open>
  Where no byte of the name is outside the domain of \<open>tolower\<close> (every byte below 0x80,
  or plain \<open>char\<close> unsigned), \<open>toWLowercase\<close> works byte by byte: a capital
  \<open>'A'\<close>..\<open>'Z'\<close> becomes the wide character of its small letter and every other byte
  the wide character of the same value.
\<close>

lemma toWLowercase_ascii:
  "\<forall>c \<in> set str. c < 0x80 \<Longrightarrow>
   toWLowercase_on sg str =
     Inr (map (\<lambda>c. if 0x41 \<le> c \<and> c \<le> 0x5A then ucast c + 0x20 else ucast c) str)"
  unfolding toWLowercase_on_def
  by (subst toWLowercase_loop_defined) (auto simp: not_le)

lemma toWLowercase_unsigned:
  "toWLowercase_on False str =
     Inr (map (\<lambda>c. if 0x41 \<le> c \<and> c \<le> 0x5A then ucast c + 0x20 else ucast c) str)"
  unfolding toWLowercase_on_def
  by (subst toWLowercase_loop_defined) simp_all

text \<open>
  C8, on the code. The claim lets every byte that is not a capital pass unchanged. The
  code hands the plain \<open>char\<close> \<open>str[i]\<close> to \<open>tolower\<close>; with the signed plain
  \<open>char\<close> of the target a byte from 0x80 on is a negative \<open>int\<close> there. For the name
  \<open>E\<close>, 0xFF the argument is \<open>EOF\<close>, which \<open>tolower\<close> returns, and the byte
  arrives as the wide character 0xFFFF, not 0xFF. For the name \<open>E\<close>, 0x80 the argument
  is -128, outside the domain of \<open>tolower\<close>: the call is undefined. With an unsigned
  plain \<open>char\<close> both bytes pass unchanged, as the claim has it.
\<close>

theorem toWLowercase_signed_char_bytes:
  "toWLowercase [0x45, 0xFF] = Inr [0x65, 0xFFFF]
   \<and> toWLowercase [0x45, 0x80] = Inl OutOfDomain
   \<and> toWLowercase_on False [0x45, 0x80, 0xFF] = Inr [0x65, 0x80, 0xFF]"
  by (simp add: toWLowercase_def toWLowercase_on_def plain_char_signed_def toWLowercase_byte)

text \<open>
  C1, on the code: for the path \<open>dir/foo.o\<close> and a file that starts with the ELF magic,
  \<open>loadArArchive\<close> returns one entry holding the whole file, and its name is
  \<open>/foo.o\<close>, the separator included, not the leaf name \<open>foo.o\<close>.
\<close>

theorem loadArArchive_bare_elf_keeps_separator:
  "loadArArchive (L ''dir/foo.o'') (0x7F # 0x45 # 0x4C # 0x46 # body) =
     Some (Inr [\<lparr>ar_name = L ''/foo.o'', ar_data = 0x7F # 0x45 # 0x4C # 0x46 # body\<rparr>])
   \<and> L ''/foo.o'' \<noteq> L ''foo.o''"
  by (simp add: loadArArchive_def getFileNameFromPath_def L_def arMagic_def elfMagic_def byteAt_def)

section \<open>Properties of the placement\<close>

lemma smod_eq_0_iff_dvd: "k smod l = 0 \<longleftrightarrow> l dvd k" for k l :: int
proof -
  have "k smod l = 0 \<longleftrightarrow> k = 0 \<or> \<bar>k\<bar> mod \<bar>l\<bar> = 0"
    by (simp add: smod_int_alt_def sgn_eq_0_iff)
  also have "\<dots> \<longleftrightarrow> \<bar>l\<bar> dvd \<bar>k\<bar>"
    by (auto simp only: dvd_eq_mod_eq_0 [symmetric] abs_zero dvd_0_right)
  also have "\<dots> \<longleftrightarrow> l dvd k" by simp
  finally show ?thesis .
qed

lemma alignUp_zero: "alignUp addr 0 = Inl DivisionByZero"
  by (subst alignUp.simps) simp

lemma alignUp_multiple: "a \<noteq> 0 \<Longrightarrow> a dvd addr \<Longrightarrow> alignUp addr a = Inr addr"
  by (subst alignUp.simps) (simp add: smod_eq_0_iff_dvd)

lemma alignUp_step: "a \<noteq> 0 \<Longrightarrow> \<not> a dvd addr \<Longrightarrow> alignUp addr a = alignUp (addr + 1) a"
  by (subst alignUp.simps) (simp add: smod_eq_0_iff_dvd)

lemma alignUp_next_multiple:
  "a \<noteq> 0 \<Longrightarrow> \<exists>r. alignUp addr a = Inr r \<and> addr \<le> r \<and> a dvd r \<and> (\<forall>k. addr \<le> k \<and> k < r \<longrightarrow> \<not> a dvd k)"
proof (induction addr a rule: alignUp.induct)
  case (1 addr a)
  show ?case
  proof (cases "a dvd addr")
    case True
    with "1.prems" show ?thesis by (auto simp: alignUp_multiple)
  next
    case False
    with "1.prems" have "addr smod a \<noteq> 0" by (simp add: smod_eq_0_iff_dvd)
    from "1.IH" [OF "1.prems" this "1.prems"] obtain r where
      r: "alignUp (addr + 1) a = Inr r" "addr + 1 \<le> r" "a dvd r"
         "\<forall>k. addr + 1 \<le> k \<and> k < r \<longrightarrow> \<not> a dvd k" by blast
    have "\<not> a dvd k" if "addr \<le> k \<and> k < r" for k
    proof (cases "k = addr")
      case True with False show ?thesis by simp
    next
      case False with that r(4) show ?thesis by simp
    qed
    with r False "1.prems" show ?thesis by (simp add: alignUp_step)
  qed
qed

lemma alignUp_Inr_iff: "(\<exists>r. alignUp addr a = Inr r) \<longleftrightarrow> a \<noteq> 0"
  using alignUp_next_multiple [of a addr] by (cases "a = 0") (auto simp: alignUp_zero)

lemma alignUp_InrD:
  assumes "alignUp addr a = Inr r"
  shows "a \<noteq> 0" "addr \<le> r" "a dvd r" "\<And>k. addr \<le> k \<Longrightarrow> k < r \<Longrightarrow> \<not> a dvd k"
proof -
  show a: "a \<noteq> 0" using assms by (auto simp: alignUp_zero)
  from alignUp_next_multiple [OF a, of addr] assms
  show "addr \<le> r" "a dvd r" "\<And>k. addr \<le> k \<Longrightarrow> k < r \<Longrightarrow> \<not> a dvd k" by auto
qed

lemma alignUp_fault: "alignUp addr a = Inl f \<Longrightarrow> f = DivisionByZero \<and> a = 0"
  using alignUp_next_multiple [of a addr] by (cases "a = 0") (auto simp: alignUp_zero)




section \<open>Properties of a pass\<close>

lemma reserveBytes_length:
  "reserveBytes buf n = Inr buf' \<Longrightarrow> int (length buf') = int (length buf) + n"
  by (auto simp: reserveBytes_def split: if_splits)

lemma memcpy_to_length: "memcpy_to out pos src = Inr out' \<Longrightarrow> length out' = length out"
  by (auto simp: memcpy_to_def split: if_splits)

lemma loadSection_length:
  "loadSection R e tab offs start dataStart entry (out, err, q) = Inr (out', err', q') \<Longrightarrow>
   length out' = length out"
  by (auto simp: loadSection_def split: if_splits sum.splits option.splits dest: memcpy_to_length)

lemma loadSections_length:
  "loadSections R e tab offs start dataStart secs (out, err, q) = Inr (out', err', q') \<Longrightarrow>
   length out' = length out"
proof (induction secs arbitrary: out err q)
  case Nil
  then show ?case by simp
next
  case (Cons entry rest)
  from Cons.prems obtain out1 err1 q1 where
    1: "loadSection R e tab offs start dataStart entry (out, err, q) = Inr (out1, err1, q1)"
    and 2: "loadSections R e tab offs start dataStart rest (out1, err1, q1) = Inr (out', err', q')"
    by (auto split: sum.splits)
  from loadSection_length [OF 1] Cons.IH [OF 2] show ?case by simp
qed

lemma updateSymbol_length:
  "updateSymbol offs symbol a st = Inr (symbol', a', st') \<Longrightarrow>
   int (length (outputData st')) - int (length (outputData st)) = a' - a"
  by (auto simp: updateSymbol_def Let_def split: if_splits sum.splits dest!: reserveBytes_length)

lemma updateSymbols_length:
  "updateSymbols offs syms a st = Inr (syms', a', st') \<Longrightarrow>
   int (length (outputData st')) - int (length (outputData st)) = a' - a"
proof (induction syms arbitrary: a st syms')
  case Nil
  then show ?case by simp
next
  case (Cons symbol rest)
  from Cons.prems obtain s1 a1 st1 rest' where
    1: "updateSymbol offs symbol a st = Inr (s1, a1, st1)"
    and 2: "updateSymbols offs rest a1 st1 = Inr (rest', a', st')"
    by (auto split: sum.splits)
  from updateSymbol_length [OF 1] Cons.IH [OF 2] show ?case by simp
qed

lemma relocateFile_length:
  "relocateFile R f a st = Inr (ok, f', a', st') \<Longrightarrow>
   int (length (outputData st')) - int (length (outputData st)) = a' - a"
  unfolding relocateFile_def Let_def
  by (auto split: sum.splits
      dest!: reserveBytes_length loadSections_length updateSymbols_length)

lemma relocateFiles_length:
  "relocateFiles R fs a st err = Inr (fs', a', st', err') \<Longrightarrow>
   int (length (outputData st')) - int (length (outputData st)) = a' - a"
proof (induction fs arbitrary: a st err fs' a' st' err')
  case Nil
  then show ?case by simp
next
  case (Cons f rest)
  show ?case
  proof (cases "relocateFile R f a st")
    case (Inl x)
    with Cons.prems show ?thesis by simp
  next
    case (Inr r)
    obtain ok f1 a1 st1 where r: "r = (ok, f1, a1, st1)" by (cases r)
    show ?thesis
    proof (cases "relocateFiles R rest a1 st1 (if ok = False then True else err)")
      case (Inl x)
      with Cons.prems Inr r show ?thesis by simp
    next
      case Inr2: (Inr r2)
      obtain rest' a2 st2 e2 where r2: "r2 = (rest', a2, st2, e2)" by (cases r2)
      from Cons.prems Inr r Inr2 r2 have eq: "a2 = a'" "st2 = st'" by simp_all
      from relocateFile_length [OF Inr [unfolded r]]
        Cons.IH [OF Inr2 [unfolded r2]] eq
      show ?thesis by simp
    qed
  qed
qed

lemma relocate_Inr:
  "relocate R crc memoryAddress st = Inr (ok, delta, st') \<longleftrightarrow>
     (\<exists>fs a1 st1 err.
        relocateFiles R (files st) memoryAddress (st\<lparr>outputData := [], dataChanged := False\<rparr>) False
          = Inr (fs, a1, st1, err)
        \<and> ok = (\<not> err) \<and> delta = a1 - memoryAddress
        \<and> st' = st1\<lparr>dataChanged := (if crc (outputData st) \<noteq> crc (outputData st1) then True
                                       else dataChanged st1),
                     files := fs\<rparr>)"
  unfolding relocate_def Let_def
  by (cases "relocateFiles R (files st) memoryAddress (st\<lparr>outputData := [], dataChanged := False\<rparr>) False")
     (auto split: prod.splits)

text \<open>
  C3. A pass that returns leaves \<open>outputData\<close> as long as the number it hands back in
  the caller's \<open>memoryAddress\<close>; and when the loop over the files ends at the address
  \<open>memoryAddress_final\<close>, the pass returns with that number being
  \<open>memoryAddress_final - memoryAddress\<close>.
\<close>

theorem relocate_delta:
  "(relocate R crc memoryAddress st = Inr (ok, delta, st') \<longrightarrow>
      int (length (outputData st')) = delta)
   \<and> (relocateFiles R (files st) memoryAddress (st\<lparr>outputData := [], dataChanged := False\<rparr>) False
         = Inr (fs, memoryAddress_final, st1, err) \<longrightarrow>
       (\<exists>st2. relocate R crc memoryAddress st = Inr (\<not> err, memoryAddress_final - memoryAddress, st2)
           \<and> int (length (outputData st2)) = memoryAddress_final - memoryAddress))"
proof (intro conjI impI)
  assume "relocate R crc memoryAddress st = Inr (ok, delta, st')"
  then obtain fs0 a0 st0 e0 where
    f: "relocateFiles R (files st) memoryAddress (st\<lparr>outputData := [], dataChanged := False\<rparr>) False
        = Inr (fs0, a0, st0, e0)"
    and d: "delta = a0 - memoryAddress"
    and s: "st' = st0\<lparr>dataChanged := (if crc (outputData st) \<noteq> crc (outputData st0) then True
                                       else dataChanged st0),
                     files := fs0\<rparr>"
    unfolding relocate_Inr by blast
  from s have o: "outputData st' = outputData st0" by simp
  from relocateFiles_length [OF f] d o show "int (length (outputData st')) = delta" by simp
next
  assume f: "relocateFiles R (files st) memoryAddress (st\<lparr>outputData := [], dataChanged := False\<rparr>) False
         = Inr (fs, memoryAddress_final, st1, err)"
  from relocateFiles_length [OF f] have "int (length (outputData st1)) = memoryAddress_final - memoryAddress"
    by simp
  with f show "\<exists>st2. relocate R crc memoryAddress st = Inr (\<not> err, memoryAddress_final - memoryAddress, st2)
           \<and> int (length (outputData st2)) = memoryAddress_final - memoryAddress"
    by (simp add: relocate_def Let_def)
qed

subsection \<open>The examples, evaluated\<close>

lemma ex_alignUp:
  "alignUp 0x1000 4 = Inr 0x1000" "alignUp 0x1005 16 = Inr 0x1010" "alignUp 0x1013 8 = Inr 0x1018"
  by (simp_all add: alignUp_step alignUp_multiple)

text \<open>
  C2, as amended. With the address at 0x1013, a symbol in \<open>SHN_COMMON\<close> whose value
  (its alignment) is 8 and whose size is 16 gets the relocated address 0x1018; the address
  advances by 0x15 (5 bytes of padding and the 0x10 of the symbol) to 0x1028, and
  \<open>outputData\<close> grows by these 0x15 zero bytes. The label of the symbol, if it has
  one, gets the value 0x1018.
\<close>

theorem updateSymbol_common_scenario:
  "updateSymbol offs (symbol\<lparr>sym_section := SHN_COMMON, relativeAddress := 8, sym_size := 16\<rparr>) 0x1013 st =
     Inr (symbol\<lparr>sym_section := SHN_COMMON, relativeAddress := 8, sym_size := 16,
                  relocatedAddress := 0x1018\<rparr>,
          0x1013 + 0x15,
          st\<lparr>outputData := outputData st @ replicate 0x15 0,
              symbolTable := (case sym_label symbol of
                                None \<Rightarrow> symbolTable st
                              | Some l \<Rightarrow> setValue (symbolTable st) l 0x1018),
              dataChanged := (if relocatedAddress symbol \<noteq> 0x1018 then True else dataChanged st)\<rparr>)"
  by (cases "sym_label symbol")
     (simp_all add: updateSymbol_def SHN_ABS_def SHN_COMMON_def ex_alignUp reserveBytes_def)

lemma ex_relocate:
  "relocate exRelocator exDigest 0x1000 exState =
     Inr (True, 0x28,
          \<lparr>files = [exFile\<lparr>symbols := [exCommon\<lparr>relocatedAddress := 0x1018\<rparr>]\<rparr>],
           outputData = [1, 2, 3, 4, 5] @ replicate 35 0,
           dataChanged = True,
           symbolTable = [(L ''buf'', \<lparr>label_value = 0x1018, label_defined = True,
                                         label_isData = True, label_info = 0\<rparr>)],
           queue = []\<rparr>)"
  by (simp add: relocate_def exState_def exFile_def exText_def exBss_def exCommon_def
      relocateFile_def ex_alignUp reserveBytes_def loadSection_def memcpy_to_def offsetAt_def
      updateSymbol_def SHT_NOBITS_def SHT_PROGBITS_def SHN_ABS_def SHN_COMMON_def setValue_def
      exDigest_def L_def Let_def numeral_eq_Suc)

text \<open>
  C2, as stated, fails: from 0x1013 the address grows by 0x15, not by 0x20.
\<close>

theorem updateSymbol_common_delta_counterexample:
  "map_sum id (\<lambda>(s, a, st). (relocatedAddress s, a - 0x1013, length (outputData st)))
     (updateSymbol Map.empty exCommon 0x1013 (exState\<lparr>outputData := replicate 0x13 0\<rparr>))
     = Inr (0x1018, 0x15, 0x28)
   \<and> (0x15 :: int) \<noteq> 0x20"
  by (simp add: updateSymbol_def exCommon_def exState_def SHN_ABS_def SHN_COMMON_def ex_alignUp
      reserveBytes_def)

lemma ex_relocateFiles:
  "relocateFiles exRelocator (files exState) 0x1000 (exState\<lparr>outputData := [], dataChanged := False\<rparr>) False =
     Inr ([exFile\<lparr>symbols := [exCommon\<lparr>relocatedAddress := 0x1018\<rparr>]\<rparr>], 0x1028,
          \<lparr>files = [exFile],
           outputData = [1, 2, 3, 4, 5] @ replicate 35 0,
           dataChanged = True,
           symbolTable = [(L ''buf'', \<lparr>label_value = 0x1018, label_defined = True,
                                         label_isData = True, label_info = 0\<rparr>)],
           queue = []\<rparr>, False)"
  by (simp add: exState_def exFile_def exText_def exBss_def exCommon_def
      relocateFile_def ex_alignUp reserveBytes_def loadSection_def memcpy_to_def offsetAt_def
      updateSymbol_def SHT_NOBITS_def SHT_PROGBITS_def SHN_ABS_def SHN_COMMON_def setValue_def
      L_def Let_def numeral_eq_Suc)

theorem relocate_delta_witness:
  "relocate exRelocator exDigest 0x1000 exState =
     Inr (True, 0x28,
          \<lparr>files = [exFile\<lparr>symbols := [exCommon\<lparr>relocatedAddress := 0x1018\<rparr>]\<rparr>],
           outputData = [1, 2, 3, 4, 5] @ replicate 35 0,
           dataChanged = True,
           symbolTable = [(L ''buf'', \<lparr>label_value = 0x1018, label_defined = True,
                                         label_isData = True, label_info = 0\<rparr>)],
           queue = []\<rparr>)
   \<and> int (length ([1, 2, 3, 4, 5 :: byte] @ replicate 35 0)) = 0x28
   \<and> (0x1028 :: int) - 0x1000 = 0x28"
  using relocate_delta [where R = exRelocator and crc = exDigest and memoryAddress = "0x1000"
      and st = exState and ok = True and delta = "0x28"
      and st' = "\<lparr>files = [exFile\<lparr>symbols := [exCommon\<lparr>relocatedAddress := 0x1018\<rparr>]\<rparr>],
           outputData = [1, 2, 3, 4, 5] @ replicate 35 0,
           dataChanged = True,
           symbolTable = [(L ''buf'', \<lparr>label_value = 0x1018, label_defined = True,
                                         label_isData = True, label_info = 0\<rparr>)],
           queue = []\<rparr>"
      and fs = "[exFile\<lparr>symbols := [exCommon\<lparr>relocatedAddress := 0x1018\<rparr>]\<rparr>]"
      and memoryAddress_final = "0x1028"
      and ?st1.0 = "\<lparr>files = [exFile],
           outputData = [1, 2, 3, 4, 5] @ replicate 35 0,
           dataChanged = True,
           symbolTable = [(L ''buf'', \<lparr>label_value = 0x1018, label_defined = True,
                                         label_isData = True, label_info = 0\<rparr>)],
           queue = []\<rparr>"
      and err = False]
    ex_relocate ex_relocateFiles
  by simp

lemma placeSections_Inr_alignment:
  "placeSections secs a offs = Inr r \<Longrightarrow> \<forall>e \<in> set secs. sec_alignment (elfSection e) \<noteq> 0"
proof (induction secs arbitrary: a offs)
  case Nil
  then show ?case by simp
next
  case (Cons e rest)
  show ?case
  proof (cases "alignUp a (sec_alignment (elfSection e))")
    case (Inl f)
    with Cons.prems show ?thesis by simp
  next
    case (Inr b)
    from alignUp_InrD(1) [OF Inr] have "sec_alignment (elfSection e) \<noteq> 0" .
    moreover from Cons.prems Inr
    have "placeSections rest (b + sec_size (elfSection e)) (offs(index e \<mapsto> b)) = Inr r" by simp
    from Cons.IH [OF this] have "\<forall>e \<in> set rest. sec_alignment (elfSection e) \<noteq> 0" .
    ultimately show ?thesis by simp
  qed
qed

lemma placeSections_fault:
  "placeSections secs a offs = Inl f \<Longrightarrow> f = DivisionByZero"
proof (induction secs arbitrary: a offs)
  case Nil
  then show ?case by simp
next
  case (Cons e rest)
  show ?case
  proof (cases "alignUp a (sec_alignment (elfSection e))")
    case (Inl g)
    with Cons.prems alignUp_fault [OF Inl] show ?thesis by simp
  next
    case (Inr b)
    with Cons.prems
    have "placeSections rest (b + sec_size (elfSection e)) (offs(index e \<mapsto> b)) = Inl f" by simp
    from Cons.IH [OF this] show ?thesis .
  qed
qed

lemma placeSections_zero_alignment:
  assumes "\<exists>e \<in> set secs. sec_alignment (elfSection e) = 0"
  shows "placeSections secs a offs = Inl DivisionByZero"
proof (cases "placeSections secs a offs")
  case (Inl f)
  with placeSections_fault [OF Inl] show ?thesis by simp
next
  case (Inr r)
  from placeSections_Inr_alignment [OF Inr] assms show ?thesis by blast
qed

lemma updateSymbol_common_zero:
  "sym_section symbol = SHN_COMMON \<Longrightarrow> relativeAddress symbol = 0 \<Longrightarrow>
   updateSymbol offs symbol a st = Inl DivisionByZero"
  by (simp add: updateSymbol_def SHN_ABS_def SHN_COMMON_def alignUp_zero)

lemma updateSymbols_Inr_common:
  "updateSymbols offs syms a st = Inr r \<Longrightarrow>
   \<forall>s \<in> set syms. sym_section s = SHN_COMMON \<longrightarrow> relativeAddress s \<noteq> 0"
proof (induction syms arbitrary: a st r)
  case Nil
  then show ?case by simp
next
  case (Cons s rest)
  show ?case
  proof (cases "updateSymbol offs s a st")
    case (Inl f)
    with Cons.prems show ?thesis by simp
  next
    case (Inr r1)
    obtain s1 a1 st1 where r1: "r1 = (s1, a1, st1)" by (cases r1)
    have here: "sym_section s = SHN_COMMON \<longrightarrow> relativeAddress s \<noteq> 0"
      using Inr updateSymbol_common_zero [of s offs a st] by auto
    show ?thesis
    proof (cases "updateSymbols offs rest a1 st1")
      case (Inl f)
      with Cons.prems Inr r1 show ?thesis by simp
    next
      case Inr2: (Inr r2)
      from Cons.IH [OF Inr2] here show ?thesis by simp
    qed
  qed
qed

text \<open>
  C9. \<open>relocateFile\<close> returns only if every section of the file has a nonzero
  alignment and every symbol in \<open>SHN_COMMON\<close> a nonzero value: with a section of
  alignment 0 it ends in the division by zero of the first loop, and the step of phase C
  for a symbol in \<open>SHN_COMMON\<close> with the value 0 ends in the division by zero of the
  second.
\<close>

theorem relocateFile_division_by_zero:
  "(relocateFile R f addr st = Inr r \<longrightarrow>
      (\<forall>entry \<in> set (sections f). sec_alignment (elfSection entry) \<noteq> 0)
      \<and> (\<forall>symbol \<in> set (symbols f). sym_section symbol = SHN_COMMON \<longrightarrow> relativeAddress symbol \<noteq> 0))
   \<and> ((\<exists>entry \<in> set (sections f). sec_alignment (elfSection entry) = 0) \<longrightarrow>
        relocateFile R f addr st = Inl DivisionByZero)
   \<and> (sym_section symbol = SHN_COMMON \<and> relativeAddress symbol = 0 \<longrightarrow>
        updateSymbol offs symbol a st' = Inl DivisionByZero)"
proof (intro conjI impI)
  assume r: "relocateFile R f addr st = Inr r"
  show "\<forall>entry \<in> set (sections f). sec_alignment (elfSection entry) \<noteq> 0"
    using r unfolding relocateFile_def Let_def
    by (auto split: sum.splits dest!: placeSections_Inr_alignment)
  show "\<forall>symbol \<in> set (symbols f). sym_section symbol = SHN_COMMON \<longrightarrow> relativeAddress symbol \<noteq> 0"
    using r unfolding relocateFile_def Let_def
    by (auto split: sum.splits dest!: updateSymbols_Inr_common)
next
  assume "\<exists>entry \<in> set (sections f). sec_alignment (elfSection entry) = 0"
  from placeSections_zero_alignment [OF this]
  show "relocateFile R f addr st = Inl DivisionByZero"
    by (simp add: relocateFile_def)
next
  assume "sym_section symbol = SHN_COMMON \<and> relativeAddress symbol = 0"
  then show "updateSymbol offs symbol a st' = Inl DivisionByZero"
    by (simp add: updateSymbol_common_zero)
qed

lemma ex_relocateFile:
  "relocateFile exRelocator exFile 0x1000 (exState\<lparr>outputData := [], dataChanged := False\<rparr>) =
     Inr (True, exFile\<lparr>symbols := [exCommon\<lparr>relocatedAddress := 0x1018\<rparr>]\<rparr>, 0x1028,
          \<lparr>files = [exFile],
           outputData = [1, 2, 3, 4, 5] @ replicate 35 0,
           dataChanged = True,
           symbolTable = [(L ''buf'', \<lparr>label_value = 0x1018, label_defined = True,
                                         label_isData = True, label_info = 0\<rparr>)],
           queue = []\<rparr>)"
  by (simp add: exState_def exFile_def exText_def exBss_def exCommon_def
      relocateFile_def ex_alignUp reserveBytes_def loadSection_def memcpy_to_def offsetAt_def
      updateSymbol_def SHT_NOBITS_def SHT_PROGBITS_def SHN_ABS_def SHN_COMMON_def setValue_def
      L_def Let_def numeral_eq_Suc)

theorem relocateFile_division_by_zero_witness:
  "relocateFile exRelocator exFile 0x1000 (exState\<lparr>outputData := [], dataChanged := False\<rparr>) =
     Inr (True, exFile\<lparr>symbols := [exCommon\<lparr>relocatedAddress := 0x1018\<rparr>]\<rparr>, 0x1028,
          \<lparr>files = [exFile],
           outputData = [1, 2, 3, 4, 5] @ replicate 35 0,
           dataChanged = True,
           symbolTable = [(L ''buf'', \<lparr>label_value = 0x1018, label_defined = True,
                                         label_isData = True, label_info = 0\<rparr>)],
           queue = []\<rparr>)
   \<and> sec_alignment (elfSection exText) \<noteq> 0 \<and> sec_alignment (elfSection exBss) \<noteq> 0
   \<and> sym_section exCommon = SHN_COMMON \<and> relativeAddress exCommon \<noteq> 0
   \<and> sec_alignment (elfSection (exBss\<lparr>elfSection := (elfSection exBss)\<lparr>sec_alignment := 0\<rparr>\<rparr>)) = 0
   \<and> relocateFile exRelocator
        (exFile\<lparr>sections := [exText, exBss\<lparr>elfSection := (elfSection exBss)\<lparr>sec_alignment := 0\<rparr>\<rparr>]\<rparr>)
        0x1000 exState = Inl DivisionByZero
   \<and> updateSymbol Map.empty (exCommon\<lparr>relativeAddress := 0\<rparr>) 0x1013 exState = Inl DivisionByZero"
proof -
  let ?bad = "exBss\<lparr>elfSection := (elfSection exBss)\<lparr>sec_alignment := 0\<rparr>\<rparr>"
  let ?zero = "exCommon\<lparr>relativeAddress := 0\<rparr>"
  note ok = relocateFile_division_by_zero [where R = exRelocator and f = exFile
      and addr = "0x1000" and st = "exState\<lparr>outputData := [], dataChanged := False\<rparr>",
      THEN conjunct1, rule_format, OF ex_relocateFile]
  from ok have 1: "sec_alignment (elfSection exText) \<noteq> 0" "sec_alignment (elfSection exBss) \<noteq> 0"
    by (simp_all add: exFile_def)
  have c: "sym_section exCommon = SHN_COMMON" by (simp add: exCommon_def)
  from ok c have 2: "relativeAddress exCommon \<noteq> 0" by (simp add: exFile_def)
  have z: "sec_alignment (elfSection ?bad) = 0" by simp
  then have "\<exists>entry \<in> set (sections (exFile\<lparr>sections := [exText, ?bad]\<rparr>)).
      sec_alignment (elfSection entry) = 0" by simp
  from relocateFile_division_by_zero [where R = exRelocator
      and f = "exFile\<lparr>sections := [exText, ?bad]\<rparr>" and addr = "0x1000" and st = exState,
      THEN conjunct2, THEN conjunct1, rule_format, OF this]
  have 3: "relocateFile exRelocator (exFile\<lparr>sections := [exText, ?bad]\<rparr>) 0x1000 exState
      = Inl DivisionByZero" .
  have "sym_section ?zero = SHN_COMMON \<and> relativeAddress ?zero = 0" by (simp add: exCommon_def)
  from relocateFile_division_by_zero [where symbol = ?zero and offs = Map.empty and a = "0x1013"
      and st' = exState, THEN conjunct2, THEN conjunct2, rule_format, OF this]
  have 4: "updateSymbol Map.empty ?zero 0x1013 exState = Inl DivisionByZero" .
  from ex_relocateFile 1 c 2 z 3 4 show ?thesis by (intro conjI)
qed

section \<open>Properties of the diagnostics\<close>

lemma updateSymbol_result:
  "updateSymbol offs s a st = Inr (s1, a1, st1) \<Longrightarrow>
   s1 = s\<lparr>relocatedAddress := relocatedAddress s1\<rparr>
   \<and> symbolTable st1 = (case sym_label s of None \<Rightarrow> symbolTable st
                          | Some l \<Rightarrow> setValue (symbolTable st) l (relocatedAddress s1))
   \<and> dataChanged st1 = (if relocatedAddress s \<noteq> relocatedAddress s1 then True else dataChanged st)
   \<and> queue st1 = queue st \<and> files st1 = files st"
  unfolding updateSymbol_def Let_def
  by (auto split: if_splits sum.splits)

lemma relocateFile_parts:
  assumes u: "relocateFile R f a st = Inr (ok, f1, a1, st1)"
  obtains a2 offs out out1 err q syms where
    "placeSections (sections f) a Map.empty = Inr (a2, offs)"
    "reserveBytes (outputData st) (a2 - a) = Inr out"
    "loadSections R (elf f) (symbolTable st) offs a (int (length (outputData st)))
       (sections f) (out, False, queue st) = Inr (out1, err, q)"
    "updateSymbols offs (symbols f) a2 (st\<lparr>outputData := out1, queue := q\<rparr>) = Inr (syms, a1, st1)"
    "ok = (\<not> err)" "f1 = f\<lparr>symbols := syms\<rparr>"
proof -
  from u obtain r1 where r1: "placeSections (sections f) a Map.empty = Inr r1"
    unfolding relocateFile_def Let_def
    by (cases "placeSections (sections f) a Map.empty") simp_all
  obtain a2 offs where t1: "r1 = (a2, offs)" by (cases r1)
  from u r1 t1 obtain out where out: "reserveBytes (outputData st) (a2 - a) = Inr out"
    unfolding relocateFile_def Let_def
    by (cases "reserveBytes (outputData st) (a2 - a)") simp_all
  let ?load = "loadSections R (elf f) (symbolTable st) offs a (int (length (outputData st)))
           (sections f) (out, False, queue st)"
  from u r1 t1 out obtain r2 where r2: "?load = Inr r2"
    unfolding relocateFile_def Let_def by (cases ?load) simp_all
  obtain out1 err q where t2: "r2 = (out1, err, q)" by (cases r2)
  from u r1 t1 out r2 t2 obtain r3 where
    r3: "updateSymbols offs (symbols f) a2 (st\<lparr>outputData := out1, queue := q\<rparr>) = Inr r3"
    unfolding relocateFile_def Let_def
    by (cases "updateSymbols offs (symbols f) a2 (st\<lparr>outputData := out1, queue := q\<rparr>)") simp_all
  obtain syms a3 st3 where t3: "r3 = (syms, a3, st3)" by (cases r3)
  from u r1 t1 out r2 t2 r3 t3 have e: "ok = (\<not> err)" "f1 = f\<lparr>symbols := syms\<rparr>" "a1 = a3" "st1 = st3"
    unfolding relocateFile_def Let_def by simp_all
  from that [OF r1 [unfolded t1] out r2 [unfolded t2] r3 [unfolded t3 e(3,4) [symmetric]] e(1,2)]
  show thesis .
qed

lemma relocateEntry_queue:
  "relocateEntry R e tab offs idx rel (sd, err, q) = Inr (sd', err', q') \<Longrightarrow>
   \<exists>n. q' = q @ n \<and> (err' \<longleftrightarrow> err \<or> n \<noteq> [])"
  unfolding relocateEntry_def Let_def queueError_def
  by (auto split: if_splits sum.splits prod.splits)

lemma relocateEntries_queue:
  "relocateEntries R e tab offs idx relBytes is (sd, err, q) = Inr (sd', err', q') \<Longrightarrow>
   \<exists>n. q' = q @ n \<and> (err' \<longleftrightarrow> err \<or> n \<noteq> [])"
proof (induction "is" arbitrary: sd err q)
  case Nil
  then show ?case by simp
next
  case (Cons i rest)
  from Cons.prems obtain rel where rel: "getRel relBytes i = Inr rel"
    by (cases "getRel relBytes i") simp_all
  from Cons.prems rel obtain s1 where s1: "relocateEntry R e tab offs idx rel (sd, err, q) = Inr s1"
    by (cases "relocateEntry R e tab offs idx rel (sd, err, q)") simp_all
  obtain sd1 err1 q1 where t: "s1 = (sd1, err1, q1)" by (cases s1)
  from Cons.prems rel s1 t
  have 2: "relocateEntries R e tab offs idx relBytes rest (sd1, err1, q1) = Inr (sd', err', q')"
    by simp
  from relocateEntry_queue [OF s1 [unfolded t]] obtain n where
    n: "q1 = q @ n" "err1 \<longleftrightarrow> err \<or> n \<noteq> []" by blast
  from Cons.IH [OF 2] obtain m where
    m: "q' = q1 @ m" "err' \<longleftrightarrow> err1 \<or> m \<noteq> []" by blast
  from n m have "q' = q @ (n @ m) \<and> (err' \<longleftrightarrow> err \<or> n @ m \<noteq> [])" by auto
  then show ?case by blast
qed

lemma loadSection_queue:
  "loadSection R e tab offs start dataStart entry (out, err, q) = Inr (out', err', q') \<Longrightarrow>
   \<exists>n. q' = q @ n \<and> (err' \<longleftrightarrow> err \<or> n \<noteq> [])"
  unfolding loadSection_def
  by (auto split: if_splits sum.splits option.splits dest: relocateEntries_queue)

lemma loadSections_queue:
  "loadSections R e tab offs start dataStart secs (out, err, q) = Inr (out', err', q') \<Longrightarrow>
   \<exists>n. q' = q @ n \<and> (err' \<longleftrightarrow> err \<or> n \<noteq> [])"
proof (induction secs arbitrary: out err q)
  case Nil
  then show ?case by simp
next
  case (Cons entry rest)
  from Cons.prems obtain s1 where
    s1: "loadSection R e tab offs start dataStart entry (out, err, q) = Inr s1"
    by (cases "loadSection R e tab offs start dataStart entry (out, err, q)") simp_all
  obtain out1 err1 q1 where t: "s1 = (out1, err1, q1)" by (cases s1)
  from Cons.prems s1 t
  have 2: "loadSections R e tab offs start dataStart rest (out1, err1, q1) = Inr (out', err', q')"
    by simp
  from loadSection_queue [OF s1 [unfolded t]] obtain n where
    n: "q1 = q @ n" "err1 \<longleftrightarrow> err \<or> n \<noteq> []" by blast
  from Cons.IH [OF 2] obtain m where
    m: "q' = q1 @ m" "err' \<longleftrightarrow> err1 \<or> m \<noteq> []" by blast
  from n m have "q' = q @ (n @ m) \<and> (err' \<longleftrightarrow> err \<or> n @ m \<noteq> [])" by auto
  then show ?case by blast
qed

lemma updateSymbol_queue:
  "updateSymbol offs symbol a st = Inr (symbol', a', st') \<Longrightarrow> queue st' = queue st"
  unfolding updateSymbol_def Let_def
  by (auto split: if_splits sum.splits)

lemma updateSymbols_queue:
  "updateSymbols offs syms a st = Inr (syms', a', st') \<Longrightarrow> queue st' = queue st"
proof (induction syms arbitrary: a st syms' a' st')
  case Nil
  then show ?case by simp
next
  case (Cons s rest)
  from Cons.prems obtain r1 where r1: "updateSymbol offs s a st = Inr r1"
    by (cases "updateSymbol offs s a st") simp_all
  obtain s1 a1 st1 where t: "r1 = (s1, a1, st1)" by (cases r1)
  from Cons.prems r1 t obtain r2 where r2: "updateSymbols offs rest a1 st1 = Inr r2"
    by (cases "updateSymbols offs rest a1 st1") simp_all
  obtain rest' a2 st2 where t2: "r2 = (rest', a2, st2)" by (cases r2)
  from Cons.prems r1 t r2 t2 have "st2 = st'" by simp
  with updateSymbol_queue [OF r1 [unfolded t]] Cons.IH [OF r2 [unfolded t2]]
  show ?case by simp
qed

lemma relocateFile_queue:
  assumes "relocateFile R f a st = Inr (ok, f', a', st')"
  shows "\<exists>n. queue st' = queue st @ n \<and> (ok \<longleftrightarrow> n = [])"
proof -
  from assms obtain r1 where r1: "placeSections (sections f) a Map.empty = Inr r1"
    unfolding relocateFile_def Let_def
    by (cases "placeSections (sections f) a Map.empty") simp_all
  obtain a1 offs where t1: "r1 = (a1, offs)" by (cases r1)
  from assms r1 t1 obtain out where out: "reserveBytes (outputData st) (a1 - a) = Inr out"
    unfolding relocateFile_def Let_def
    by (cases "reserveBytes (outputData st) (a1 - a)") simp_all
  from assms r1 t1 out obtain r2 where
    r2: "loadSections R (elf f) (symbolTable st) offs a (int (length (outputData st)))
           (sections f) (out, False, queue st) = Inr r2"
    unfolding relocateFile_def Let_def
    by (cases "loadSections R (elf f) (symbolTable st) offs a (int (length (outputData st)))
           (sections f) (out, False, queue st)") simp_all
  obtain out1 err q where t2: "r2 = (out1, err, q)" by (cases r2)
  from assms r1 t1 out r2 t2 obtain r3 where
    r3: "updateSymbols offs (symbols f) a1 (st\<lparr>outputData := out1, queue := q\<rparr>) = Inr r3"
    unfolding relocateFile_def Let_def
    by (cases "updateSymbols offs (symbols f) a1 (st\<lparr>outputData := out1, queue := q\<rparr>)") simp_all
  obtain syms a2 st2 where t3: "r3 = (syms, a2, st2)" by (cases r3)
  from assms r1 t1 out r2 t2 r3 t3 have e: "ok = (\<not> err)" "st' = st2"
    unfolding relocateFile_def Let_def by simp_all
  from loadSections_queue [OF r2 [unfolded t2]] obtain n where
    n: "q = queue st @ n" "err \<longleftrightarrow> n \<noteq> []" by auto
  from updateSymbols_queue [OF r3 [unfolded t3]] have "queue st2 = q" by simp
  with e n show ?thesis by auto
qed

lemma relocateFiles_queue:
  "relocateFiles R fs a st err = Inr (fs', a', st', err') \<Longrightarrow>
   \<exists>n. queue st' = queue st @ n \<and> (err' \<longleftrightarrow> err \<or> n \<noteq> [])"
proof (induction fs arbitrary: a st err fs' a' st' err')
  case Nil
  then show ?case by simp
next
  case (Cons f rest)
  from Cons.prems obtain r1 where r1: "relocateFile R f a st = Inr r1"
    by (cases "relocateFile R f a st") simp_all
  obtain ok f1 a1 st1 where t: "r1 = (ok, f1, a1, st1)" by (cases r1)
  from Cons.prems r1 t obtain r2 where
    r2: "relocateFiles R rest a1 st1 (if ok = False then True else err) = Inr r2"
    by (cases "relocateFiles R rest a1 st1 (if ok = False then True else err)") simp_all
  obtain rest' a2 st2 e2 where t2: "r2 = (rest', a2, st2, e2)" by (cases r2)
  from Cons.prems r1 t r2 t2 have e: "st2 = st'" "e2 = err'" by simp_all
  from relocateFile_queue [OF r1 [unfolded t]] obtain n where
    n: "queue st1 = queue st @ n" "ok \<longleftrightarrow> n = []" by blast
  from Cons.IH [OF r2 [unfolded t2]] obtain m where
    m: "queue st2 = queue st1 @ m" "e2 \<longleftrightarrow> (if ok = False then True else err) \<or> m \<noteq> []" by blast
  from n m e have "queue st' = queue st @ (n @ m) \<and> (err' \<longleftrightarrow> err \<or> n @ m \<noteq> [])" by auto
  then show ?case by blast
qed

lemma relocate_queue:
  assumes "relocate R crc a st = Inr (ok, delta, st')"
  shows "\<exists>n. queue st' = queue st @ n \<and> (ok \<longleftrightarrow> n = [])"
proof -
  from assms obtain fs0 a0 st0 e0 where
    f: "relocateFiles R (files st) a (st\<lparr>outputData := [], dataChanged := False\<rparr>) False
        = Inr (fs0, a0, st0, e0)"
    and ok: "ok = (\<not> e0)"
    and s: "st' = st0\<lparr>dataChanged := (if crc (outputData st) \<noteq> crc (outputData st0) then True
                                       else dataChanged st0),
                     files := fs0\<rparr>"
    unfolding relocate_Inr by blast
  from relocateFiles_queue [OF f] ok s show ?thesis by auto
qed

section \<open>Properties of the relocation entries\<close>

lemma ex_getRel:
  "getRel exRelBytes 0 = Inr exRelExt" "getRel exRelBytes (Suc 0) = Inr exRelNull"
  "getRel exRelBytes 2 = Inr exRelLoc"
  by (simp_all add: getRel_def getDoubleWord_def exRelBytes_def exRelExt_def exRelNull_def
      exRelLoc_def)

lemma ex_getSymbolNum:
  "getSymbolNum exRelExt = 1" "getSymbolNum exRelNull = 0" "getSymbolNum exRelLoc = 2"
  by (simp_all add: getSymbolNum_def exRelExt_def exRelNull_def exRelLoc_def drop_bit_eq_div)

lemma ex_getRelType:
  "getRelType exRelExt = 2" "getRelType exRelNull = 2" "getRelType exRelLoc = 2"
  by (simp_all add: getRelType_def exRelExt_def exRelNull_def exRelLoc_def)

lemma ex_getSymbol: "getSymbol exElf 1 = Inr exSymExt" "getSymbol exElf 2 = Inr exSymLoc"
  by (simp_all add: getSymbol_def exElf_def)

lemma ex_symName: "toWLowercase (getStrTableString exElf (st_name exSymExt)) = Inr (L ''ext'')"
  by (simp add: toWLowercase_def toWLowercase_on_def getStrTableString_def exElf_def exSymExt_def
      plain_char_signed_def toWLowercase_byte L_def)

lemma ex_sym:
  "st_shndx exSymExt = 0" "st_shndx exSymLoc = 7"
  by (simp_all add: exSymExt_def exSymLoc_def)

lemma ex_hook:
  "setSymbolAddress exRelocator rd v t = rd\<lparr>symbolAddress := uint v, targetSymbolType := t\<rparr>"
  "relocateOpcode exRelocator ty rd = (True, rd\<lparr>opcode := opcode rd + word_of_int (relocationBase rd)\<rparr>)"
  "newRelocationData exRelocator = \<lparr>opcodeOffset = 0, opcode = 0, relocationBase = 0,
     targetSymbolType = 0, targetSymbolInfo = 0, symbolAddress = 0, errorMessage = []\<rparr>"
  by (simp_all add: exRelocator_def)

lemma ex_pos:
  "sint (r_offset exRelExt) = 0" "sint (r_offset exRelNull) = 4" "sint (r_offset exRelLoc) = 4"
  by (simp_all add: exRelExt_def exRelNull_def exRelLoc_def)

lemma ex_prepare:
  "prepareRelData exRelocator offs idx pos exSymExt w =
     \<lparr>opcodeOffset = pos + offsetAt offs idx, opcode = w, relocationBase = 0,
      targetSymbolType = 0, targetSymbolInfo = 0, symbolAddress = 0, errorMessage = []\<rparr>"
  "prepareRelData exRelocator offs idx pos exSymLoc w =
     \<lparr>opcodeOffset = pos + offsetAt offs idx, opcode = w, relocationBase = 0,
      targetSymbolType = 1, targetSymbolInfo = 0, symbolAddress = 4, errorMessage = []\<rparr>"
  by (simp_all add: prepareRelData_def ex_hook exSymExt_def exSymLoc_def)

lemma ex_getDoubleWord:
  "getDoubleWord [0x10, 0, 0, 0, 0x20, 0, 0, 0] 0 = Inr 0x10"
  "getDoubleWord [a, b, c, d, 0x20, 0, 0, 0] 4 = Inr 0x20"
  by (simp_all add: getDoubleWord_def)

lemma ex_entry_null:
  "relocateEntry exRelocator exElf tab offs 1 exRelNull (sd, err, q) =
     Inr (sd, True, q @ [(Warning, L ''Invalid symbol num %06X'', [ArgInt 0])])"
  by (simp add: relocateEntry_def ex_getSymbolNum queueError_def)

lemma ex_entry_loc:
  "relocateEntry exRelocator exElf tab [1 \<mapsto> 0x1000] 1 exRelLoc ([a, b, c, d, 0x20, 0, 0, 0], err, q) =
     Inr ([a, b, c, d, 0x24, 0, 0, 0], err, q)"
  by (simp add: relocateEntry_def ex_getSymbolNum ex_getSymbol ex_pos ex_getRelType ex_hook
      ex_prepare ex_getDoubleWord setRelocationBase_def replaceDoubleWord_def
      offsetAt_def STT_NOTYPE_def ex_sym Let_def)

lemma ex_entry_ext_missing:
  "getLabel tab (L ''ext'') = None \<Longrightarrow>
   relocateEntry exRelocator exElf tab [1 \<mapsto> 0x1000] 1 exRelExt ([0x10, 0, 0, 0, 0x20, 0, 0, 0], err, q) =
     Inr ([0x10, 0, 0, 0, 0x20, 0, 0, 0], True,
          q @ [(Error, L ''Invalid external symbol %s'', [ArgStr (L ''ext'')])])"
  by (simp add: relocateEntry_def ex_getSymbolNum ex_getSymbol ex_pos ex_getRelType ex_hook
      ex_prepare ex_getDoubleWord setRelocationBase_def ex_symName
      offsetAt_def STT_NOTYPE_def queueError_def ex_sym Let_def)

lemma ex_entry_ext_undefined:
  "relocateEntry exRelocator exElf exDeclared [1 \<mapsto> 0x1000] 1 exRelExt ([0x10, 0, 0, 0, 0x20, 0, 0, 0], err, q) =
     Inr ([0x10, 0, 0, 0, 0x20, 0, 0, 0], True,
          q @ [(Error, L ''Undefined external symbol %s'', [ArgStr (L ''ext'')])])"
  by (simp add: relocateEntry_def ex_getSymbolNum ex_getSymbol ex_pos ex_getRelType ex_hook
      ex_prepare ex_getDoubleWord setRelocationBase_def ex_symName getLabel_def exDeclared_def
      offsetAt_def STT_NOTYPE_def queueError_def ex_sym Let_def)

lemma ex_entry_ext_defined:
  "relocateEntry exRelocator exElf exDefined [1 \<mapsto> 0x1000] 1 exRelExt ([0x10, 0, 0, 0, 0x20, 0, 0, 0], err, q) =
     Inr ([0x10, 0x20, 0, 0, 0x20, 0, 0, 0], err, q)"
  by (simp add: relocateEntry_def ex_getSymbolNum ex_getSymbol ex_pos ex_getRelType ex_hook
      ex_prepare ex_getDoubleWord setRelocationBase_def ex_symName getLabel_def exDefined_def
      offsetAt_def STT_NOTYPE_def queueError_def replaceDoubleWord_def ex_sym Let_def)



lemma placeSections_other:
  "placeSections secs a offs = Inr (a', offs') \<Longrightarrow> k \<notin> index ` set secs \<Longrightarrow> offs' k = offs k"
proof (induction secs arbitrary: a offs)
  case Nil
  then show ?case by simp
next
  case (Cons e rest)
  from Cons.prems(1) obtain b where
    b: "alignUp a (sec_alignment (elfSection e)) = Inr b"
    and rest: "placeSections rest (b + sec_size (elfSection e)) (offs(index e \<mapsto> b)) = Inr (a', offs')"
    by (auto split: sum.splits)
  from Cons.prems(2) have "k \<notin> index ` set rest" "k \<noteq> index e" by auto
  with Cons.IH [OF rest] show ?case by simp
qed

lemma relocateEntry_extern:
  assumes "0 < getSymbolNum rel"
    and "getSymbol e (getSymbolNum rel) = Inr symbol"
    and "getDoubleWord sectionData (sint (r_offset rel)) = Inr w"
  shows "relocateEntry R e tab offs idx rel (sectionData, error, q) =
     (case setRelocationBase e tab offs symbol
             (prepareRelData R offs idx (sint (r_offset rel)) symbol w) of
        Inl f \<Rightarrow> Inl f
      | Inr (Inl (lvl, fmt, args)) \<Rightarrow> Inr (sectionData, True, q @ [(lvl, fmt, args)])
      | Inr (Inr relData) \<Rightarrow>
          (case relocateOpcode R (getRelType rel) relData of
             (ok, relData') \<Rightarrow>
               if ok = False
               then Inr (sectionData, True, q @ [(Error, errorMessage relData', [])])
               else (case replaceDoubleWord sectionData (sint (r_offset rel)) (opcode relData') of
                       Inl f \<Rightarrow> Inl f
                     | Inr sectionData' \<Rightarrow> Inr (sectionData', error, q))))"
  using assms
  by (simp add: relocateEntry_def Let_def queueError_def split: sum.splits prod.splits)

lemma setValue_getLabel:
  "getLabel (setValue tab h v) n =
     map_option (\<lambda>l. if n = h then l\<lparr>label_value := v\<rparr> else l) (getLabel tab n)"
  unfolding getLabel_def setValue_def by (induction tab) auto

lemma setValue_defined:
  "map_option label_defined (getLabel (setValue tab h v) n) =
     map_option label_defined (getLabel tab n)"
  by (cases "getLabel tab n") (simp_all add: setValue_getLabel)

lemma updateSymbol_defined:
  assumes "updateSymbol offs s a st = Inr (s1, a1, st1)"
  shows "map_option label_defined (getLabel (symbolTable st1) n) =
     map_option label_defined (getLabel (symbolTable st) n)"
proof -
  from updateSymbol_result [OF assms] have
    "symbolTable st1 = (case sym_label s of None \<Rightarrow> symbolTable st
                          | Some l \<Rightarrow> setValue (symbolTable st) l (relocatedAddress s1))"
    by blast
  then show ?thesis by (cases "sym_label s") (simp_all add: setValue_defined)
qed

lemma updateSymbols_defined:
  "updateSymbols offs syms a st = Inr (syms1, a1, st1) \<Longrightarrow>
   map_option label_defined (getLabel (symbolTable st1) n) =
     map_option label_defined (getLabel (symbolTable st) n)"
proof (induction syms arbitrary: a st syms1 a1 st1)
  case Nil
  then show ?case by simp
next
  case (Cons s rest)
  from Cons.prems obtain r1 where r1: "updateSymbol offs s a st = Inr r1"
    by (cases "updateSymbol offs s a st") simp_all
  obtain s1 b st2 where t1: "r1 = (s1, b, st2)" by (cases r1)
  from Cons.prems r1 t1 obtain r2 where r2: "updateSymbols offs rest b st2 = Inr r2"
    by (cases "updateSymbols offs rest b st2") simp_all
  obtain rest1 c st3 where t2: "r2 = (rest1, c, st3)" by (cases r2)
  from Cons.prems r1 t1 r2 t2 have e: "st1 = st3" by simp
  from updateSymbol_defined [OF r1 [unfolded t1]] Cons.IH [OF r2 [unfolded t2]] e
  show ?case by simp
qed

lemma relocateFile_defined:
  assumes "relocateFile R f a st = Inr (ok, f1, a1, st1)"
  shows "map_option label_defined (getLabel (symbolTable st1) n) =
     map_option label_defined (getLabel (symbolTable st) n)"
proof -
  from assms obtain a2 offs out out1 err q syms where
    u: "updateSymbols offs (symbols f) a2 (st\<lparr>outputData := out1, queue := q\<rparr>) = Inr (syms, a1, st1)"
    by (rule relocateFile_parts)
  from updateSymbols_defined [OF u] show ?thesis by simp
qed

text \<open>
  An entry against an extern whose name has no defined label: whenever the loop body
  returns, it has left the working copy as it was, set the error flag and queued the error.
\<close>

lemma relocateEntry_extern_fails:
  assumes n: "0 < getSymbolNum rel"
    and s: "getSymbol e (getSymbolNum rel) = Inr symbol"
    and x: "st_shndx symbol = 0"
    and t: "\<forall>offs' w'. targetSymbolType (prepareRelData R offs' idx (sint (r_offset rel)) symbol w')
              = STT_NOTYPE"
    and nm: "toWLowercase (getStrTableString e (st_name symbol)) = Inr symName"
    and l: "map_option label_defined (getLabel tab symName) \<noteq> Some True"
    and r: "relocateEntry R e tab offs idx rel (sd, err, q) = Inr (sd', err', q')"
  shows "sd' = sd \<and> err' = True
     \<and> q' = q @ [(Error, if getLabel tab symName = None then L ''Invalid external symbol %s''
                         else L ''Undefined external symbol %s'', [ArgStr symName])]"
proof -
  from r n s obtain w where w: "getDoubleWord sd (sint (r_offset rel)) = Inr w"
    by (cases "getDoubleWord sd (sint (r_offset rel))") (simp_all add: relocateEntry_def Let_def)
  from t have ty: "targetSymbolType (prepareRelData R offs idx (sint (r_offset rel)) symbol w)
      = STT_NOTYPE" by blast
  show ?thesis
  proof (cases "getLabel tab symName")
    case None
    with r ty x nm show ?thesis
      unfolding relocateEntry_extern [OF n s w] by (simp add: setRelocationBase_def Let_def)
  next
    case (Some lab)
    with l have "\<not> label_defined lab" by simp
    with Some r ty x nm show ?thesis
      unfolding relocateEntry_extern [OF n s w] by (simp add: setRelocationBase_def Let_def)
  qed
qed

text \<open>
  An entry of the list that sets the error flag and queues \<open>D\<close> whenever it returns: the
  loop over the entries, the loops over the sections and the files, when they return, have
  the flag set and \<open>D\<close> in the queue.
\<close>

lemma relocateEntries_fails:
  assumes "relocateEntries R e tab offs idx relBytes is (sd, err, q) = Inr (sd', err', q')"
    and "k \<in> set is" and "getRel relBytes k = Inr rel"
    and "\<And>sd err q sd' err' q'.
           relocateEntry R e tab offs idx rel (sd, err, q) = Inr (sd', err', q') \<Longrightarrow>
           err' \<and> D \<in> set q'"
  shows "err' \<and> D \<in> set q'"
  using assms(1,2)
proof (induction "is" arbitrary: sd err q)
  case Nil
  then show ?case by simp
next
  case (Cons i rest)
  from Cons.prems(1) obtain rel1 where rel1: "getRel relBytes i = Inr rel1"
    by (cases "getRel relBytes i") simp_all
  from Cons.prems(1) rel1 obtain s1 where
    s1: "relocateEntry R e tab offs idx rel1 (sd, err, q) = Inr s1"
    by (cases "relocateEntry R e tab offs idx rel1 (sd, err, q)") simp_all
  obtain sd1 err1 q1 where t: "s1 = (sd1, err1, q1)" by (cases s1)
  from Cons.prems(1) rel1 s1 t
  have 2: "relocateEntries R e tab offs idx relBytes rest (sd1, err1, q1) = Inr (sd', err', q')"
    by simp
  show ?case
  proof (cases "k = i")
    case True
    with rel1 assms(3) have "rel1 = rel" by simp
    with assms(4) [OF s1 [unfolded t this]] have "err1" "D \<in> set q1" by simp_all
    with relocateEntries_queue [OF 2] show ?thesis by auto
  next
    case False
    with Cons.prems(2) have "k \<in> set rest" by simp
    from Cons.IH [OF 2 this] show ?thesis .
  qed
qed

lemma loadSection_fails:
  assumes a: "loadSection R e tab offs start dataStart entry (out, err, q) = Inr (out', err', q')"
    and nb: "sec_type (elfSection entry) \<noteq> SHT_NOBITS"
    and rs: "relSection entry = Some rs"
    and k: "k < nat (sec_size rs sdiv 8)" and rel: "getRel (sec_data rs) k = Inr rel"
    and H: "\<And>sd err q sd' err' q'.
           relocateEntry R e tab offs (index entry) rel (sd, err, q) = Inr (sd', err', q') \<Longrightarrow>
           err' \<and> D \<in> set q'"
  shows "err' \<and> D \<in> set q'"
proof -
  let ?run = "relocateEntries R e tab offs (index entry) (sec_data rs)
                [0 ..< nat (sec_size rs sdiv 8)] (sec_data (elfSection entry), err, q)"
  from a nb rs obtain s1 where s1: "?run = Inr s1"
    by (cases ?run) (simp_all add: loadSection_def)
  obtain sd2 err2 q2 where t: "s1 = (sd2, err2, q2)" by (cases s1)
  from k have kin: "k \<in> set [0 ..< nat (sec_size rs sdiv 8)]" by simp
  have f: "err2 \<and> D \<in> set q2"
    using s1 [unfolded t] kin rel by (rule relocateEntries_fails) (rule H)
  from a nb rs s1 t have "err' = err2" "q' = q2"
    by (auto simp: loadSection_def split: sum.splits)
  with f show ?thesis by simp
qed

lemma loadSections_fails:
  assumes "loadSections R e tab offs start dataStart secs (out, err, q) = Inr (out', err', q')"
    and "entry \<in> set secs"
    and nb: "sec_type (elfSection entry) \<noteq> SHT_NOBITS"
    and rs: "relSection entry = Some rs"
    and k: "k < nat (sec_size rs sdiv 8)" and rel: "getRel (sec_data rs) k = Inr rel"
    and H: "\<And>sd err q sd' err' q'.
           relocateEntry R e tab offs (index entry) rel (sd, err, q) = Inr (sd', err', q') \<Longrightarrow>
           err' \<and> D \<in> set q'"
  shows "err' \<and> D \<in> set q'"
  using assms(1,2)
proof (induction secs arbitrary: out err q)
  case Nil
  then show ?case by simp
next
  case (Cons x rest)
  from Cons.prems(1) obtain s1 where
    s1: "loadSection R e tab offs start dataStart x (out, err, q) = Inr s1"
    by (cases "loadSection R e tab offs start dataStart x (out, err, q)") simp_all
  obtain out1 err1 q1 where t: "s1 = (out1, err1, q1)" by (cases s1)
  from Cons.prems(1) s1 t
  have 2: "loadSections R e tab offs start dataStart rest (out1, err1, q1) = Inr (out', err', q')"
    by simp
  show ?case
  proof (cases "entry = x")
    case True
    have "err1 \<and> D \<in> set q1"
      using s1 [unfolded t True [symmetric]] nb rs k rel by (rule loadSection_fails) (rule H)
    then have "err1" "D \<in> set q1" by simp_all
    with loadSections_queue [OF 2] show ?thesis by auto
  next
    case False
    with Cons.prems(2) have "entry \<in> set rest" by simp
    from Cons.IH [OF 2 this] show ?thesis .
  qed
qed

lemma relocateFile_fails:
  assumes u: "relocateFile R f a st = Inr (ok, f1, a1, st1)"
    and en: "entry \<in> set (sections f)"
    and nb: "sec_type (elfSection entry) \<noteq> SHT_NOBITS"
    and rs: "relSection entry = Some rs"
    and k: "k < nat (sec_size rs sdiv 8)" and rel: "getRel (sec_data rs) k = Inr rel"
    and H: "\<And>offs sd err q sd' err' q'.
           relocateEntry R (elf f) (symbolTable st) offs (index entry) rel (sd, err, q)
             = Inr (sd', err', q') \<Longrightarrow>
           err' \<and> D \<in> set q'"
  shows "ok = False \<and> D \<in> set (queue st1)"
proof -
  from u obtain a2 offs out out1 err q syms where
    l: "loadSections R (elf f) (symbolTable st) offs a (int (length (outputData st)))
       (sections f) (out, False, queue st) = Inr (out1, err, q)"
    and us: "updateSymbols offs (symbols f) a2 (st\<lparr>outputData := out1, queue := q\<rparr>) = Inr (syms, a1, st1)"
    and ok: "ok = (\<not> err)"
    by (rule relocateFile_parts)
  have "err \<and> D \<in> set q"
    using l en nb rs k rel by (rule loadSections_fails) (rule H)
  then have "err" "D \<in> set q" by simp_all
  moreover from updateSymbols_queue [OF us] have "queue st1 = q" by simp
  ultimately show ?thesis using ok by simp
qed

lemma relocateFiles_fails:
  assumes "relocateFiles R fs a st err = Inr (fs1, a1, st1, err1)"
    and "f \<in> set fs"
    and "map_option label_defined (getLabel (symbolTable st) n) = d"
    and H: "\<And>a st ok f1 a1 st1.
           map_option label_defined (getLabel (symbolTable st) n) = d \<Longrightarrow>
           relocateFile R f a st = Inr (ok, f1, a1, st1) \<Longrightarrow>
           ok = False \<and> D \<in> set (queue st1)"
  shows "err1 \<and> D \<in> set (queue st1)"
  using assms(1,2,3)
proof (induction fs arbitrary: a st err fs1 a1 st1 err1)
  case Nil
  then show ?case by simp
next
  case (Cons x rest)
  from Cons.prems(1) obtain r1 where r1: "relocateFile R x a st = Inr r1"
    by (cases "relocateFile R x a st") simp_all
  obtain ok x1 b st2 where t: "r1 = (ok, x1, b, st2)" by (cases r1)
  let ?e = "if ok = False then True else err"
  from Cons.prems(1) r1 t obtain r2 where r2: "relocateFiles R rest b st2 ?e = Inr r2"
    by (cases "relocateFiles R rest b st2 ?e") simp_all
  obtain rest1 c st3 e3 where t2: "r2 = (rest1, c, st3, e3)" by (cases r2)
  from Cons.prems(1) r1 t r2 t2 have e: "st3 = st1" "e3 = err1" by simp_all
  show ?case
  proof (cases "f = x")
    case True
    from H [OF Cons.prems(3) r1 [unfolded t True [symmetric]]]
    have "ok = False" "D \<in> set (queue st2)" by simp_all
    with relocateFiles_queue [OF r2 [unfolded t2]] e show ?thesis by auto
  next
    case False
    with Cons.prems(2) have m: "f \<in> set rest" by simp
    from relocateFile_defined [OF r1 [unfolded t], of n] Cons.prems(3)
    have d: "map_option label_defined (getLabel (symbolTable st2) n) = d" by simp
    from Cons.IH [OF r2 [unfolded t2 e] m d] show ?thesis .
  qed
qed

text \<open>
  C4. Take an entry with a symbol number above 0 whose symbol has section index 0 and whose
  translated type is \<open>NOTYPE\<close>, and let \<open>symName\<close> be the lowercased name of the
  symbol. If \<open>symName\<close> has a defined label, the hook's \<open>relocateOpcode\<close> gets the
  relocation data with \<open>relocationBase\<close> set to the label's value. If \<open>symName\<close> has
  no label, the error \<open>Invalid external symbol\<close> is queued, and if the label is not
  defined, the error \<open>Undefined external symbol\<close>; in both cases the working copy of
  the section is left as it is and the error flag is set. The loop goes on with the
  remaining entries. And the pass fails: when a section of a file of the pass has such an
  entry among those of its relocation section, the hook gives the symbol the type
  \<open>NOTYPE\<close> whatever the opcode, and \<open>symName\<close> has no defined label when
  the pass starts, then \<open>relocate\<close>, if it returns, returns failure and has queued the
  error for \<open>symName\<close>.
\<close>

theorem extern_resolution:
  assumes "0 < getSymbolNum rel"
    and "getSymbol e (getSymbolNum rel) = Inr symbol"
    and "st_shndx symbol = 0"
    and "toWLowercase (getStrTableString e (st_name symbol)) = Inr symName"
  shows
    "(getDoubleWord sectionData (sint (r_offset rel)) = Inr w
        \<and> targetSymbolType (prepareRelData R offs idx (sint (r_offset rel)) symbol w) = STT_NOTYPE
        \<and> getLabel tab symName = Some label \<and> label_defined label \<longrightarrow>
        relocateEntry R e tab offs idx rel (sectionData, error, q) =
          (case relocateOpcode R (getRelType rel)
                  ((prepareRelData R offs idx (sint (r_offset rel)) symbol w)
                     \<lparr>relocationBase := label_value label,
                      targetSymbolType := (if label_isData label then STT_OBJECT else STT_FUNC),
                      targetSymbolInfo := label_info label\<rparr>) of
             (ok, relData') \<Rightarrow>
               if ok = False
               then Inr (sectionData, True, q @ [(Error, errorMessage relData', [])])
               else (case replaceDoubleWord sectionData (sint (r_offset rel)) (opcode relData') of
                       Inl f \<Rightarrow> Inl f
                     | Inr sectionData' \<Rightarrow> Inr (sectionData', error, q))))
     \<and> (getDoubleWord sectionData (sint (r_offset rel)) = Inr w
        \<and> targetSymbolType (prepareRelData R offs idx (sint (r_offset rel)) symbol w) = STT_NOTYPE
        \<and> getLabel tab symName = None \<longrightarrow>
        relocateEntry R e tab offs idx rel (sectionData, error, q) =
          Inr (sectionData, True,
               q @ [(Error, L ''Invalid external symbol %s'', [ArgStr symName])]))
     \<and> (getDoubleWord sectionData (sint (r_offset rel)) = Inr w
        \<and> targetSymbolType (prepareRelData R offs idx (sint (r_offset rel)) symbol w) = STT_NOTYPE
        \<and> getLabel tab symName = Some label \<and> \<not> label_defined label \<longrightarrow>
        relocateEntry R e tab offs idx rel (sectionData, error, q) =
          Inr (sectionData, True,
               q @ [(Error, L ''Undefined external symbol %s'', [ArgStr symName])]))
     \<and> (getRel relBytes i = Inr rel
        \<and> relocateEntry R e tab offs idx rel (sectionData, error, q) = Inr s' \<longrightarrow>
        relocateEntries R e tab offs idx relBytes (i # rest) (sectionData, error, q) =
          relocateEntries R e tab offs idx relBytes rest s')
     \<and> (relocate R crc memoryAddress st = Inr (ok, delta, st')
        \<and> obj \<in> set (files st) \<and> elf obj = e
        \<and> entry \<in> set (sections obj) \<and> index entry = idx
        \<and> sec_type (elfSection entry) \<noteq> SHT_NOBITS \<and> relSection entry = Some rs
        \<and> k < nat (sec_size rs sdiv 8) \<and> getRel (sec_data rs) k = Inr rel
        \<and> (\<forall>offs' w'. targetSymbolType
               (prepareRelData R offs' idx (sint (r_offset rel)) symbol w') = STT_NOTYPE)
        \<and> (\<forall>l. getLabel (symbolTable st) symName = Some l \<longrightarrow> \<not> label_defined l) \<longrightarrow>
        ok = False
        \<and> (Error, if getLabel (symbolTable st) symName = None
                   then L ''Invalid external symbol %s''
                   else L ''Undefined external symbol %s'', [ArgStr symName]) \<in> set (queue st'))"
proof (intro conjI impI)
  assume h: "getDoubleWord sectionData (sint (r_offset rel)) = Inr w
        \<and> targetSymbolType (prepareRelData R offs idx (sint (r_offset rel)) symbol w) = STT_NOTYPE
        \<and> getLabel tab symName = Some label \<and> label_defined label"
  then have w: "getDoubleWord sectionData (sint (r_offset rel)) = Inr w" by blast
  from h have "targetSymbolType (prepareRelData R offs idx (sint (r_offset rel)) symbol w) = STT_NOTYPE"
    "getLabel tab symName = Some label" "label_defined label" by blast+
  then show "relocateEntry R e tab offs idx rel (sectionData, error, q) =
          (case relocateOpcode R (getRelType rel)
                  ((prepareRelData R offs idx (sint (r_offset rel)) symbol w)
                     \<lparr>relocationBase := label_value label,
                      targetSymbolType := (if label_isData label then STT_OBJECT else STT_FUNC),
                      targetSymbolInfo := label_info label\<rparr>) of
             (ok, relData') \<Rightarrow>
               if ok = False
               then Inr (sectionData, True, q @ [(Error, errorMessage relData', [])])
               else (case replaceDoubleWord sectionData (sint (r_offset rel)) (opcode relData') of
                       Inl f \<Rightarrow> Inl f
                     | Inr sectionData' \<Rightarrow> Inr (sectionData', error, q)))"
    using assms(3,4)
    by (simp add: relocateEntry_extern [OF assms(1,2) w] setRelocationBase_def Let_def)
next
  assume h: "getDoubleWord sectionData (sint (r_offset rel)) = Inr w
        \<and> targetSymbolType (prepareRelData R offs idx (sint (r_offset rel)) symbol w) = STT_NOTYPE
        \<and> getLabel tab symName = None"
  then have w: "getDoubleWord sectionData (sint (r_offset rel)) = Inr w" by blast
  from h have "targetSymbolType (prepareRelData R offs idx (sint (r_offset rel)) symbol w) = STT_NOTYPE"
    "getLabel tab symName = None" by blast+
  then show "relocateEntry R e tab offs idx rel (sectionData, error, q) =
          Inr (sectionData, True,
               q @ [(Error, L ''Invalid external symbol %s'', [ArgStr symName])])"
    using assms(3,4)
    by (simp add: relocateEntry_extern [OF assms(1,2) w] setRelocationBase_def Let_def)
next
  assume h: "getDoubleWord sectionData (sint (r_offset rel)) = Inr w
        \<and> targetSymbolType (prepareRelData R offs idx (sint (r_offset rel)) symbol w) = STT_NOTYPE
        \<and> getLabel tab symName = Some label \<and> \<not> label_defined label"
  then have w: "getDoubleWord sectionData (sint (r_offset rel)) = Inr w" by blast
  from h have "targetSymbolType (prepareRelData R offs idx (sint (r_offset rel)) symbol w) = STT_NOTYPE"
    "getLabel tab symName = Some label" "\<not> label_defined label" by blast+
  then show "relocateEntry R e tab offs idx rel (sectionData, error, q) =
          Inr (sectionData, True,
               q @ [(Error, L ''Undefined external symbol %s'', [ArgStr symName])])"
    using assms(3,4)
    by (simp add: relocateEntry_extern [OF assms(1,2) w] setRelocationBase_def Let_def)
next
  assume "getRel relBytes i = Inr rel
        \<and> relocateEntry R e tab offs idx rel (sectionData, error, q) = Inr s'"
  then show "relocateEntries R e tab offs idx relBytes (i # rest) (sectionData, error, q) =
          relocateEntries R e tab offs idx relBytes rest s'"
    by simp
next
  assume h: "relocate R crc memoryAddress st = Inr (ok, delta, st')
        \<and> obj \<in> set (files st) \<and> elf obj = e
        \<and> entry \<in> set (sections obj) \<and> index entry = idx
        \<and> sec_type (elfSection entry) \<noteq> SHT_NOBITS \<and> relSection entry = Some rs
        \<and> k < nat (sec_size rs sdiv 8) \<and> getRel (sec_data rs) k = Inr rel
        \<and> (\<forall>offs' w'. targetSymbolType
               (prepareRelData R offs' idx (sint (r_offset rel)) symbol w') = STT_NOTYPE)
        \<and> (\<forall>l. getLabel (symbolTable st) symName = Some l \<longrightarrow> \<not> label_defined l)"
  let ?d = "map_option label_defined (getLabel (symbolTable st) symName)"
  let ?D = "(Error, if getLabel (symbolTable st) symName = None
                   then L ''Invalid external symbol %s''
                   else L ''Undefined external symbol %s'', [ArgStr symName])"
  from h have p: "relocate R crc memoryAddress st = Inr (ok, delta, st')" by blast
  from h have fm: "obj \<in> set (files st)" and el: "elf obj = e"
    and en: "entry \<in> set (sections obj)" and ix: "index entry = idx" by blast+
  from h have nb: "sec_type (elfSection entry) \<noteq> SHT_NOBITS"
    and rs: "relSection entry = Some rs"
    and k: "k < nat (sec_size rs sdiv 8)" and rel: "getRel (sec_data rs) k = Inr rel" by blast+
  from h have ty: "\<forall>offs' w'. targetSymbolType
               (prepareRelData R offs' idx (sint (r_offset rel)) symbol w') = STT_NOTYPE" by blast
  from h have und: "\<forall>l. getLabel (symbolTable st) symName = Some l \<longrightarrow> \<not> label_defined l" by blast
  then have d: "?d \<noteq> Some True" by (cases "getLabel (symbolTable st) symName") simp_all
  from p obtain fs0 a0 st0 e0 where
    f: "relocateFiles R (files st) memoryAddress (st\<lparr>outputData := [], dataChanged := False\<rparr>) False
        = Inr (fs0, a0, st0, e0)"
    and ok: "ok = (\<not> e0)"
    and s: "st' = st0\<lparr>dataChanged := (if crc (outputData st) \<noteq> crc (outputData st0) then True
                                       else dataChanged st0),
                     files := fs0\<rparr>"
    unfolding relocate_Inr by blast
  have r: "e0 \<and> ?D \<in> set (queue st0)"
  proof (rule relocateFiles_fails [OF f fm, where n = symName and d = ?d])
    show "map_option label_defined
            (getLabel (symbolTable (st\<lparr>outputData := [], dataChanged := False\<rparr>)) symName) = ?d"
      by simp
  next
    fix a2 st2 ok2 f2 b2 st3
    assume sd: "map_option label_defined (getLabel (symbolTable st2) symName) = ?d"
      and rf: "relocateFile R obj a2 st2 = Inr (ok2, f2, b2, st3)"
    from sd d have d2: "map_option label_defined (getLabel (symbolTable st2) symName) \<noteq> Some True"
      by simp
    from sd have same: "(getLabel (symbolTable st2) symName = None)
        = (getLabel (symbolTable st) symName = None)"
      by (cases "getLabel (symbolTable st2) symName"; cases "getLabel (symbolTable st) symName")
        simp_all
    show "ok2 = False \<and> ?D \<in> set (queue st3)"
    proof (rule relocateFile_fails [OF rf en nb rs k rel])
      fix offs2 sd2 err2 q2 sd3 err3 q3
      assume "relocateEntry R (elf obj) (symbolTable st2) offs2 (index entry) rel (sd2, err2, q2)
             = Inr (sd3, err3, q3)"
      then have r: "relocateEntry R e (symbolTable st2) offs2 idx rel (sd2, err2, q2)
             = Inr (sd3, err3, q3)" by (simp only: el ix)
      from relocateEntry_extern_fails [OF assms(1,2,3) ty assms(4) d2 r] same
      show "err3 \<and> ?D \<in> set q3" by simp
    qed
  qed
  from r ok show "ok = False" by simp
  from r s show "?D \<in> set (queue st')" by simp
qed

text \<open>
  C10. When the symbol of an entry is not taken as an extern and its section index is not
  the index of any section phase A has placed, the offset read for that section is 0, so
  \<open>relocationBase\<close> is the translated \<open>symbolAddress\<close> alone; and when the hook
  accepts the entry, the word is patched and nothing is queued.
\<close>

theorem unplaced_section_offset:
  "(placeSections (sections f) a Map.empty = Inr (a', offs)
      \<and> uint (st_shndx symbol) \<notin> index ` set (sections f)
      \<and> \<not> (targetSymbolType relData = STT_NOTYPE \<and> st_shndx symbol = 0) \<longrightarrow>
      offsetAt offs (uint (st_shndx symbol)) = 0
      \<and> setRelocationBase e tab offs symbol relData =
          Inr (Inr (relData\<lparr>relocationBase := symbolAddress relData\<rparr>)))
   \<and> (0 < getSymbolNum rel
      \<and> getSymbol e (getSymbolNum rel) = Inr symbol
      \<and> getDoubleWord sectionData (sint (r_offset rel)) = Inr w
      \<and> relData = prepareRelData R offs idx (sint (r_offset rel)) symbol w
      \<and> setRelocationBase e tab offs symbol relData =
          Inr (Inr (relData\<lparr>relocationBase := symbolAddress relData\<rparr>))
      \<and> relocateOpcode R (getRelType rel) (relData\<lparr>relocationBase := symbolAddress relData\<rparr>)
          = (True, relData')
      \<and> replaceDoubleWord sectionData (sint (r_offset rel)) (opcode relData') = Inr sectionData' \<longrightarrow>
      relocateEntry R e tab offs idx rel (sectionData, error, q) = Inr (sectionData', error, q))"
proof (intro conjI impI)
  assume h: "placeSections (sections f) a Map.empty = Inr (a', offs)
      \<and> uint (st_shndx symbol) \<notin> index ` set (sections f)
      \<and> \<not> (targetSymbolType relData = STT_NOTYPE \<and> st_shndx symbol = 0)"
  then have "offs (uint (st_shndx symbol)) = None"
    using placeSections_other [of "sections f" a Map.empty a' offs "uint (st_shndx symbol)"]
    by simp
  then show o: "offsetAt offs (uint (st_shndx symbol)) = 0" by (simp add: offsetAt_def)
  from h o show "setRelocationBase e tab offs symbol relData =
          Inr (Inr (relData\<lparr>relocationBase := symbolAddress relData\<rparr>))"
    by (auto simp: setRelocationBase_def Let_def)
next
  assume h: "0 < getSymbolNum rel
      \<and> getSymbol e (getSymbolNum rel) = Inr symbol
      \<and> getDoubleWord sectionData (sint (r_offset rel)) = Inr w
      \<and> relData = prepareRelData R offs idx (sint (r_offset rel)) symbol w
      \<and> setRelocationBase e tab offs symbol relData =
          Inr (Inr (relData\<lparr>relocationBase := symbolAddress relData\<rparr>))
      \<and> relocateOpcode R (getRelType rel) (relData\<lparr>relocationBase := symbolAddress relData\<rparr>)
          = (True, relData')
      \<and> replaceDoubleWord sectionData (sint (r_offset rel)) (opcode relData') = Inr sectionData'"
  then have 1: "0 < getSymbolNum rel" "getSymbol e (getSymbolNum rel) = Inr symbol"
    "getDoubleWord sectionData (sint (r_offset rel)) = Inr w" by blast+
  from h have r: "relData = prepareRelData R offs idx (sint (r_offset rel)) symbol w" by blast
  from h have 2: "setRelocationBase e tab offs symbol relData =
          Inr (Inr (relData\<lparr>relocationBase := symbolAddress relData\<rparr>))" by blast
  from h have 3: "relocateOpcode R (getRelType rel) (relData\<lparr>relocationBase := symbolAddress relData\<rparr>)
          = (True, relData')" by blast
  from h have 4: "replaceDoubleWord sectionData (sint (r_offset rel)) (opcode relData') = Inr sectionData'"
    by blast
  show "relocateEntry R e tab offs idx rel (sectionData, error, q) = Inr (sectionData', error, q)"
    unfolding relocateEntry_extern [OF 1] r [symmetric] by (simp add: 2 3 4)
qed

lemma ex_upt3: "[0 ..< 3] = [0, Suc 0, 2]"
  by (simp add: upt_rec)

lemma ex_entries_missing:
  "getLabel tab (L ''ext'') = None \<Longrightarrow>
   relocateEntries exRelocator exElf tab [1 \<mapsto> 0x1000] 1 exRelBytes [0 ..< 3]
     ([0x10, 0, 0, 0, 0x20, 0, 0, 0], False, []) =
   Inr ([0x10, 0, 0, 0, 0x24, 0, 0, 0], True,
        [(Error, L ''Invalid external symbol %s'', [ArgStr (L ''ext'')]),
         (Warning, L ''Invalid symbol num %06X'', [ArgInt 0])])"
  by (simp add: ex_upt3 ex_getRel ex_entry_ext_missing ex_entry_null ex_entry_loc)

lemma ex_entries_defined:
  "relocateEntries exRelocator exElf exDefined [1 \<mapsto> 0x1000] 1 exRelBytes [0 ..< 3]
     ([0x10, 0, 0, 0, 0x20, 0, 0, 0], False, []) =
   Inr ([0x10, 0x20, 0, 0, 0x24, 0, 0, 0], True,
        [(Warning, L ''Invalid symbol num %06X'', [ArgInt 0])])"
  by (simp add: ex_upt3 ex_getRel ex_entry_ext_defined ex_entry_null ex_entry_loc)


lemma ex_place_code:
  "placeSections (sections exObject) 0x1000 Map.empty = Inr (0x1008, [1 \<mapsto> 0x1000])"
  by (simp add: exObject_def exCode_def alignUp_multiple)

lemma ex_code_fields:
  "sec_type (elfSection exCode) = SHT_PROGBITS" "index exCode = 1"
  "sec_data (elfSection exCode) = [0x10, 0, 0, 0, 0x20, 0, 0, 0]"
  "relSection exCode = Some \<lparr>sec_type = SHT_REL, sec_flags = 0, sec_size = 24,
                 sec_alignment = 4, sec_info = 1, sec_data = exRelBytes\<rparr>"
  by (simp_all add: exCode_def)

lemma ex_load_code_missing:
  "getLabel tab (L ''ext'') = None \<Longrightarrow>
   loadSections exRelocator (elf exObject) tab [1 \<mapsto> 0x1000] 0x1000 0 (sections exObject)
     (replicate 8 0, False, []) =
   Inr ([0x10, 0, 0, 0, 0x24, 0, 0, 0], True,
        [(Error, L ''Invalid external symbol %s'', [ArgStr (L ''ext'')]),
         (Warning, L ''Invalid symbol num %06X'', [ArgInt 0])])"
  by (simp add: exObject_def loadSection_def ex_code_fields SHT_PROGBITS_def SHT_NOBITS_def
      ex_entries_missing memcpy_to_def offsetAt_def)

lemma ex_load_code_defined:
  "loadSections exRelocator (elf exObject) exDefined [1 \<mapsto> 0x1000] 0x1000 0 (sections exObject)
     (replicate 8 0, False, []) =
   Inr ([0x10, 0x20, 0, 0, 0x24, 0, 0, 0], True,
        [(Warning, L ''Invalid symbol num %06X'', [ArgInt 0])])"
  by (simp add: exObject_def loadSection_def ex_code_fields SHT_PROGBITS_def SHT_NOBITS_def
      ex_entries_defined memcpy_to_def offsetAt_def)

lemma ex_symbols_object: "symbols exObject = []" "files exLinked = [exObject]"
  "outputData exLinked = []" "queue exLinked = []" "symbolTable exLinked = exDefined"
  by (simp_all add: exObject_def exLinked_def)

lemma ex_relocateFile_unresolved:
  "relocateFile exRelocator exObject 0x1000
     (exLinked\<lparr>symbolTable := [], outputData := [], dataChanged := False\<rparr>) =
   Inr (False, exObject, 0x1008,
        exLinked\<lparr>symbolTable := [], outputData := [0x10, 0, 0, 0, 0x24, 0, 0, 0],
           dataChanged := False,
           queue := [(Error, L ''Invalid external symbol %s'', [ArgStr (L ''ext'')]),
                     (Warning, L ''Invalid symbol num %06X'', [ArgInt 0])]\<rparr>)"
proof -
  have g: "getLabel [] (L ''ext'') = None" by (simp add: getLabel_def)
  show ?thesis
    by (simp add: relocateFile_def ex_place_code reserveBytes_def ex_load_code_missing [OF g]
        ex_symbols_object)
qed

lemma ex_relocateFile_defined:
  "relocateFile exRelocator exObject 0x1000 (exLinked\<lparr>outputData := [], dataChanged := False\<rparr>) =
   Inr (False, exObject, 0x1008,
        exLinked\<lparr>outputData := [0x10, 0x20, 0, 0, 0x24, 0, 0, 0],
           dataChanged := False,
           queue := [(Warning, L ''Invalid symbol num %06X'', [ArgInt 0])]\<rparr>)"
  by (simp add: relocateFile_def ex_place_code reserveBytes_def ex_load_code_defined
      ex_symbols_object)

lemma ex_relocate_unresolved:
  "relocate exRelocator exDigest 0x1000 (exLinked\<lparr>symbolTable := []\<rparr>) =
     Inr (False, 8,
          exLinked\<lparr>symbolTable := [], outputData := [0x10, 0, 0, 0, 0x24, 0, 0, 0],
            dataChanged := True,
            queue := [(Error, L ''Invalid external symbol %s'', [ArgStr (L ''ext'')]),
                      (Warning, L ''Invalid symbol num %06X'', [ArgInt 0])]\<rparr>)"
proof -
  have d: "exDigest [] \<noteq> exDigest [0x10, 0, 0, 0, 0x24, 0, 0, 0]"
    by (simp add: exDigest_def)
  show ?thesis
    using d by (simp add: relocate_def ex_symbols_object ex_relocateFile_unresolved Let_def)
qed

theorem extern_resolution_witness:
  "0 < getSymbolNum exRelExt
   \<and> getSymbol exElf (getSymbolNum exRelExt) = Inr exSymExt
   \<and> getDoubleWord [0x10, 0, 0, 0, 0x20, 0, 0, 0] (sint (r_offset exRelExt)) = Inr 0x10
   \<and> targetSymbolType (prepareRelData exRelocator [1 \<mapsto> 0x1000] 1 (sint (r_offset exRelExt))
         exSymExt 0x10) = STT_NOTYPE
   \<and> st_shndx exSymExt = 0
   \<and> toWLowercase (getStrTableString exElf (st_name exSymExt)) = Inr (L ''ext'')
   \<and> getLabel exDefined (L ''ext'') =
         Some \<lparr>label_value = 0x2000, label_defined = True, label_isData = False, label_info = 0\<rparr>
   \<and> relocateEntry exRelocator exElf exDefined [1 \<mapsto> 0x1000] 1 exRelExt
         ([0x10, 0, 0, 0, 0x20, 0, 0, 0], False, []) =
       Inr ([0x10, 0x20, 0, 0, 0x20, 0, 0, 0], False, [])
   \<and> getLabel [] (L ''ext'') = None
   \<and> relocateEntry exRelocator exElf [] [1 \<mapsto> 0x1000] 1 exRelExt
         ([0x10, 0, 0, 0, 0x20, 0, 0, 0], False, []) =
       Inr ([0x10, 0, 0, 0, 0x20, 0, 0, 0], True,
            [(Error, L ''Invalid external symbol %s'', [ArgStr (L ''ext'')])])
   \<and> getLabel exDeclared (L ''ext'') =
         Some \<lparr>label_value = 0, label_defined = False, label_isData = False, label_info = 0\<rparr>
   \<and> relocateEntry exRelocator exElf exDeclared [1 \<mapsto> 0x1000] 1 exRelExt
         ([0x10, 0, 0, 0, 0x20, 0, 0, 0], False, []) =
       Inr ([0x10, 0, 0, 0, 0x20, 0, 0, 0], True,
            [(Error, L ''Undefined external symbol %s'', [ArgStr (L ''ext'')])])
   \<and> getRel exRelBytes 0 = Inr exRelExt
   \<and> relocateEntries exRelocator exElf [] [1 \<mapsto> 0x1000] 1 exRelBytes [0, 1, 2]
         ([0x10, 0, 0, 0, 0x20, 0, 0, 0], False, []) =
       Inr ([0x10, 0, 0, 0, 0x24, 0, 0, 0], True,
            [(Error, L ''Invalid external symbol %s'', [ArgStr (L ''ext'')]),
             (Warning, L ''Invalid symbol num %06X'', [ArgInt 0])])
   \<and> relocate exRelocator exDigest 0x1000 (exLinked\<lparr>symbolTable := []\<rparr>) =
       Inr (False, 8,
          exLinked\<lparr>symbolTable := [], outputData := [0x10, 0, 0, 0, 0x24, 0, 0, 0],
            dataChanged := True,
            queue := [(Error, L ''Invalid external symbol %s'', [ArgStr (L ''ext'')]),
                      (Warning, L ''Invalid symbol num %06X'', [ArgInt 0])]\<rparr>)
   \<and> exObject \<in> set (files (exLinked\<lparr>symbolTable := []\<rparr>)) \<and> elf exObject = exElf
   \<and> exCode \<in> set (sections exObject) \<and> index exCode = 1
   \<and> sec_type (elfSection exCode) \<noteq> SHT_NOBITS
   \<and> relSection exCode = Some \<lparr>sec_type = SHT_REL, sec_flags = 0, sec_size = 24,
                 sec_alignment = 4, sec_info = 1, sec_data = exRelBytes\<rparr>
   \<and> (0 :: nat) < nat (24 sdiv 8)
   \<and> (\<forall>offs' w'. targetSymbolType
          (prepareRelData exRelocator offs' 1 (sint (r_offset exRelExt)) exSymExt w') = STT_NOTYPE)
   \<and> getLabel (symbolTable (exLinked\<lparr>symbolTable := []\<rparr>)) (L ''ext'') = None
   \<and> (Error, L ''Invalid external symbol %s'', [ArgStr (L ''ext'')])
        \<in> set (queue (exLinked\<lparr>symbolTable := [], outputData := [0x10, 0, 0, 0, 0x24, 0, 0, 0],
            dataChanged := True,
            queue := [(Error, L ''Invalid external symbol %s'', [ArgStr (L ''ext'')]),
                      (Warning, L ''Invalid symbol num %06X'', [ArgInt 0])]\<rparr>))"
proof -
  let ?sd = "[0x10, 0, 0, 0, 0x20, 0, 0, 0] :: ByteArray"
  let ?offs = "[1 \<mapsto> 0x1000] :: int \<rightharpoonup> int"
  let ?rs = "\<lparr>sec_type = SHT_REL, sec_flags = 0, sec_size = 24,
                 sec_alignment = 4, sec_info = 1, sec_data = exRelBytes\<rparr>"
  let ?st = "exLinked\<lparr>symbolTable := []\<rparr>"
  let ?st' = "exLinked\<lparr>symbolTable := [], outputData := [0x10, 0, 0, 0, 0x24, 0, 0, 0],
            dataChanged := True,
            queue := [(Error, L ''Invalid external symbol %s'', [ArgStr (L ''ext'')]),
                      (Warning, L ''Invalid symbol num %06X'', [ArgInt 0])]\<rparr>"
  have n: "0 < getSymbolNum exRelExt" by (simp add: ex_getSymbolNum)
  have s: "getSymbol exElf (getSymbolNum exRelExt) = Inr exSymExt"
    by (simp add: ex_getSymbolNum ex_getSymbol)
  have w: "getDoubleWord ?sd (sint (r_offset exRelExt)) = Inr 0x10"
    by (simp add: ex_pos ex_getDoubleWord)
  have t: "targetSymbolType (prepareRelData exRelocator ?offs 1 (sint (r_offset exRelExt))
         exSymExt 0x10) = STT_NOTYPE"
    by (simp add: ex_prepare STT_NOTYPE_def)
  have x: "st_shndx exSymExt = 0" by (simp add: ex_sym)
  note nm = ex_symName
  note T = extern_resolution [OF n s x nm]
  have l1: "getLabel exDefined (L ''ext'') =
      Some \<lparr>label_value = 0x2000, label_defined = True, label_isData = False, label_info = 0\<rparr>"
    by (simp add: getLabel_def exDefined_def)
  have l2: "getLabel [] (L ''ext'') = None" by (simp add: getLabel_def)
  have l3: "getLabel exDeclared (L ''ext'') =
      Some \<lparr>label_value = 0, label_defined = False, label_isData = False, label_info = 0\<rparr>"
    by (simp add: getLabel_def exDeclared_def)
  from T [where tab = exDefined and error = False and q = "[]", THEN conjunct1, rule_format] w t l1
  have r1: "relocateEntry exRelocator exElf exDefined ?offs 1 exRelExt (?sd, False, []) =
       Inr ([0x10, 0x20, 0, 0, 0x20, 0, 0, 0], False, [])"
    by (simp add: ex_prepare ex_hook ex_pos ex_getRelType replaceDoubleWord_def)
  from T [where tab = "[]" and error = False and q = "[]", THEN conjunct2, THEN conjunct1,
      rule_format] w t l2
  have r2: "relocateEntry exRelocator exElf [] ?offs 1 exRelExt (?sd, False, []) =
       Inr (?sd, True, [(Error, L ''Invalid external symbol %s'', [ArgStr (L ''ext'')])])"
    by simp
  from T [where tab = exDeclared and error = False and q = "[]", THEN conjunct2, THEN conjunct2,
      THEN conjunct1, rule_format] w t l3
  have r3: "relocateEntry exRelocator exElf exDeclared ?offs 1 exRelExt (?sd, False, []) =
       Inr (?sd, True, [(Error, L ''Undefined external symbol %s'', [ArgStr (L ''ext'')])])"
    by simp
  from T [where tab = "[]" and error = False and q = "[]" and relBytes = exRelBytes and i = 0
      and rest = "[1, 2]", THEN conjunct2, THEN conjunct2, THEN conjunct2, THEN conjunct1,
      rule_format] ex_getRel(1) r2
  have r4: "relocateEntries exRelocator exElf [] ?offs 1 exRelBytes [0, 1, 2] (?sd, False, []) =
       Inr ([0x10, 0, 0, 0, 0x24, 0, 0, 0], True,
            [(Error, L ''Invalid external symbol %s'', [ArgStr (L ''ext'')]),
             (Warning, L ''Invalid symbol num %06X'', [ArgInt 0])])"
    by (simp add: ex_getRel ex_entry_null ex_entry_loc)
  note r5 = ex_relocate_unresolved
  have m1: "exObject \<in> set (files ?st)" by (simp add: ex_symbols_object)
  have m2: "elf exObject = exElf" by (simp add: exObject_def)
  have m3: "exCode \<in> set (sections exObject)" by (simp add: exObject_def)
  have m4: "index exCode = 1" by (simp add: ex_code_fields)
  have m5: "sec_type (elfSection exCode) \<noteq> SHT_NOBITS"
    by (simp add: ex_code_fields SHT_PROGBITS_def SHT_NOBITS_def)
  have m6: "relSection exCode = Some ?rs" by (simp add: ex_code_fields)
  have m7: "(0 :: nat) < nat (24 sdiv 8)" by (simp add: signed_divide_int_def)
  have m7': "(0 :: nat) < nat (sec_size ?rs sdiv 8)" using m7 by simp
  have m8: "getRel (sec_data ?rs) 0 = Inr exRelExt" by (simp add: ex_getRel)
  have m9: "\<forall>offs' w'. targetSymbolType
          (prepareRelData exRelocator offs' 1 (sint (r_offset exRelExt)) exSymExt w') = STT_NOTYPE"
    by (simp add: ex_prepare STT_NOTYPE_def)
  have m10: "getLabel (symbolTable ?st) (L ''ext'') = None" by (simp add: getLabel_def)
  then have m10': "\<forall>l. getLabel (symbolTable ?st) (L ''ext'') = Some l \<longrightarrow> \<not> label_defined l"
    by simp
  from T [where crc = exDigest and memoryAddress = "0x1000" and st = ?st and ok = False
      and delta = 8 and st' = ?st' and obj = exObject and entry = exCode and rs = ?rs and k = 0,
      THEN conjunct2, THEN conjunct2, THEN conjunct2, THEN conjunct2, rule_format]
    r5 m1 m2 m3 m4 m5 m6 m7' m8 m9 m10'
  have "(Error, if getLabel (symbolTable ?st) (L ''ext'') = None
                   then L ''Invalid external symbol %s''
                   else L ''Undefined external symbol %s'', [ArgStr (L ''ext'')]) \<in> set (queue ?st')"
    by blast
  with m10 have r6: "(Error, L ''Invalid external symbol %s'', [ArgStr (L ''ext'')]) \<in> set (queue ?st')"
    by (simp only: simp_thms if_True)
  from n s w t x nm l1 r1 l2 r2 l3 r3 ex_getRel(1) r4 r5 m1 m2 m3 m4 m5 m6 m7 m9 m10 r6
  show ?thesis by (intro conjI)
qed

theorem unplaced_section_offset_witness:
  "placeSections (sections exObject) 0x1000 Map.empty = Inr (0x1008, [1 \<mapsto> 0x1000])
   \<and> uint (st_shndx exSymLoc) \<notin> index ` set (sections exObject)
   \<and> \<not> (targetSymbolType (prepareRelData exRelocator [1 \<mapsto> 0x1000] 1 4 exSymLoc 0x20) = STT_NOTYPE
         \<and> st_shndx exSymLoc = 0)
   \<and> offsetAt [1 \<mapsto> 0x1000] (uint (st_shndx exSymLoc)) = 0
   \<and> relocationBase (prepareRelData exRelocator [1 \<mapsto> 0x1000] 1 4 exSymLoc 0x20
         \<lparr>relocationBase := symbolAddress (prepareRelData exRelocator [1 \<mapsto> 0x1000] 1 4 exSymLoc 0x20)\<rparr>) = 4
   \<and> 0 < getSymbolNum exRelLoc
   \<and> getSymbol exElf (getSymbolNum exRelLoc) = Inr exSymLoc
   \<and> getDoubleWord [0x10, 0, 0, 0, 0x20, 0, 0, 0] (sint (r_offset exRelLoc)) = Inr 0x20
   \<and> relocateEntry exRelocator exElf exDefined [1 \<mapsto> 0x1000] 1 exRelLoc
         ([0x10, 0, 0, 0, 0x20, 0, 0, 0], False, []) =
       Inr ([0x10, 0, 0, 0, 0x24, 0, 0, 0], False, [])"
proof -
  let ?sd = "[0x10, 0, 0, 0, 0x20, 0, 0, 0] :: ByteArray"
  let ?offs = "[1 \<mapsto> 0x1000] :: int \<rightharpoonup> int"
  let ?rd = "prepareRelData exRelocator ?offs 1 4 exSymLoc 0x20"
  have p: "placeSections (sections exObject) 0x1000 Map.empty = Inr (0x1008, ?offs)"
    by (rule ex_place_code)
  have i: "uint (st_shndx exSymLoc) \<notin> index ` set (sections exObject)"
    by (simp add: ex_sym exObject_def ex_code_fields)
  have e: "\<not> (targetSymbolType ?rd = STT_NOTYPE \<and> st_shndx exSymLoc = 0)"
    by (simp add: ex_sym)
  note T = unplaced_section_offset [where f = exObject and a = "0x1000" and a' = "0x1008"
      and offs = ?offs and symbol = exSymLoc and relData = ?rd and e = exElf and tab = exDefined
      and rel = exRelLoc and sectionData = ?sd and w = "0x20" and R = exRelocator and idx = 1
      and relData' = "?rd\<lparr>relocationBase := 4, opcode := 0x24\<rparr>"
      and sectionData' = "[0x10, 0, 0, 0, 0x24, 0, 0, 0]" and error = False and q = "[]"]
  from T [THEN conjunct1, rule_format] p i e
  have o: "offsetAt ?offs (uint (st_shndx exSymLoc)) = 0"
    and b: "setRelocationBase exElf exDefined ?offs exSymLoc ?rd =
          Inr (Inr (?rd\<lparr>relocationBase := symbolAddress ?rd\<rparr>))"
    by blast+
  have b4: "relocationBase (?rd\<lparr>relocationBase := symbolAddress ?rd\<rparr>) = 4"
    by (simp add: ex_prepare)
  have n: "0 < getSymbolNum exRelLoc" by (simp add: ex_getSymbolNum)
  have s: "getSymbol exElf (getSymbolNum exRelLoc) = Inr exSymLoc"
    by (simp add: ex_getSymbolNum ex_getSymbol)
  have w: "getDoubleWord ?sd (sint (r_offset exRelLoc)) = Inr 0x20"
    by (simp add: ex_pos ex_getDoubleWord)
  have r: "?rd = prepareRelData exRelocator ?offs 1 (sint (r_offset exRelLoc)) exSymLoc 0x20"
    by (simp add: ex_pos)
  have h: "relocateOpcode exRelocator (getRelType exRelLoc) (?rd\<lparr>relocationBase := symbolAddress ?rd\<rparr>)
          = (True, ?rd\<lparr>relocationBase := 4, opcode := 0x24\<rparr>)"
    by (simp add: ex_hook ex_prepare)
  have c: "replaceDoubleWord ?sd (sint (r_offset exRelLoc))
             (opcode (?rd\<lparr>relocationBase := 4, opcode := 0x24\<rparr>)) = Inr [0x10, 0, 0, 0, 0x24, 0, 0, 0]"
    by (simp add: ex_pos replaceDoubleWord_def)
  from T [THEN conjunct2, rule_format] n s w r b h c
  have "relocateEntry exRelocator exElf exDefined ?offs 1 exRelLoc (?sd, False, []) =
       Inr ([0x10, 0, 0, 0, 0x24, 0, 0, 0], False, [])"
    by blast
  with p i e o b4 n s w show ?thesis by (intro conjI)
qed

section \<open>Properties of repeated passes\<close>

lemma relocateEntry_any_queue:
  "relocateEntry R e tab offs idx rel (sd, err, q) = Inr (sd1, err1, q1) \<Longrightarrow>
   \<exists>q1'. relocateEntry R e tab offs idx rel (sd, err, q') = Inr (sd1, err1, q1')"
  unfolding relocateEntry_def Let_def
  by (auto split: if_splits sum.splits prod.splits)

lemma relocateEntries_any_queue:
  "relocateEntries R e tab offs idx relBytes is (sd, err, q) = Inr (sd1, err1, q1) \<Longrightarrow>
   \<exists>q1'. relocateEntries R e tab offs idx relBytes is (sd, err, q') = Inr (sd1, err1, q1')"
proof (induction "is" arbitrary: sd err q q')
  case Nil
  then show ?case by simp
next
  case (Cons i rest)
  from Cons.prems obtain rel where rel: "getRel relBytes i = Inr rel"
    by (cases "getRel relBytes i") simp_all
  from Cons.prems rel obtain s1 where s1: "relocateEntry R e tab offs idx rel (sd, err, q) = Inr s1"
    by (cases "relocateEntry R e tab offs idx rel (sd, err, q)") simp_all
  obtain sd2 err2 q2 where t: "s1 = (sd2, err2, q2)" by (cases s1)
  from Cons.prems rel s1 t
  have 2: "relocateEntries R e tab offs idx relBytes rest (sd2, err2, q2) = Inr (sd1, err1, q1)"
    by simp
  from relocateEntry_any_queue [OF s1 [unfolded t], of q'] obtain q2' where
    a: "relocateEntry R e tab offs idx rel (sd, err, q') = Inr (sd2, err2, q2')" by blast
  from Cons.IH [OF 2, of q2'] obtain q1' where
    b: "relocateEntries R e tab offs idx relBytes rest (sd2, err2, q2') = Inr (sd1, err1, q1')"
    by blast
  from rel a b show ?case by simp
qed

lemma loadSection_any_queue:
  "loadSection R e tab offs start dataStart entry (out, err, q) = Inr (out1, err1, q1) \<Longrightarrow>
   \<exists>q1'. loadSection R e tab offs start dataStart entry (out, err, q') = Inr (out1, err1, q1')"
proof (cases "sec_type (elfSection entry) = SHT_NOBITS")
  case True
  assume "loadSection R e tab offs start dataStart entry (out, err, q) = Inr (out1, err1, q1)"
  with True show ?thesis by (simp add: loadSection_def)
next
  case nb: False
  assume a: "loadSection R e tab offs start dataStart entry (out, err, q) = Inr (out1, err1, q1)"
  show ?thesis
  proof (cases "relSection entry")
    case None
    with a nb show ?thesis by (auto simp: loadSection_def split: sum.splits)
  next
    case (Some rs)
    let ?run = "\<lambda>q. relocateEntries R e tab offs (index entry) (sec_data rs)
                     [0 ..< nat (sec_size rs sdiv 8)] (sec_data (elfSection entry), err, q)"
    from a nb Some obtain s1 where s1: "?run q = Inr s1"
      by (cases "?run q") (simp_all add: loadSection_def)
    obtain sd2 err2 q2 where t: "s1 = (sd2, err2, q2)" by (cases s1)
    from relocateEntries_any_queue [OF s1 [unfolded t], of q'] obtain q2' where
      b: "?run q' = Inr (sd2, err2, q2')" by blast
    from a nb Some s1 t b show ?thesis
      by (auto simp: loadSection_def split: sum.splits)
  qed
qed

lemma loadSections_any_queue:
  "loadSections R e tab offs start dataStart secs (out, err, q) = Inr (out1, err1, q1) \<Longrightarrow>
   \<exists>q1'. loadSections R e tab offs start dataStart secs (out, err, q') = Inr (out1, err1, q1')"
proof (induction secs arbitrary: out err q q')
  case Nil
  then show ?case by simp
next
  case (Cons entry rest)
  from Cons.prems obtain s1 where
    s1: "loadSection R e tab offs start dataStart entry (out, err, q) = Inr s1"
    by (cases "loadSection R e tab offs start dataStart entry (out, err, q)") simp_all
  obtain out2 err2 q2 where t: "s1 = (out2, err2, q2)" by (cases s1)
  from Cons.prems s1 t
  have 2: "loadSections R e tab offs start dataStart rest (out2, err2, q2) = Inr (out1, err1, q1)"
    by simp
  from loadSection_any_queue [OF s1 [unfolded t], of q'] obtain q2' where
    a: "loadSection R e tab offs start dataStart entry (out, err, q') = Inr (out2, err2, q2')"
    by blast
  from Cons.IH [OF 2, of q2'] obtain q1' where
    b: "loadSections R e tab offs start dataStart rest (out2, err2, q2') = Inr (out1, err1, q1')"
    by blast
  from a b show ?case by simp
qed

lemma stripAddress_update:
  "stripAddress s = stripAddress s' \<Longrightarrow> s\<lparr>relocatedAddress := v\<rparr> = s'\<lparr>relocatedAddress := v\<rparr>"
proof -
  assume a: "stripAddress s = stripAddress s'"
  have "s\<lparr>relocatedAddress := v\<rparr> = (stripAddress s)\<lparr>relocatedAddress := v\<rparr>"
    by (simp add: stripAddress_def)
  also have "\<dots> = (stripAddress s')\<lparr>relocatedAddress := v\<rparr>" by (simp only: a)
  also have "\<dots> = s'\<lparr>relocatedAddress := v\<rparr>" by (simp add: stripAddress_def)
  finally show ?thesis .
qed

lemma stripAddress_fields:
  assumes "stripAddress s = stripAddress s'"
  shows "sym_section s = sym_section s'" "relativeAddress s = relativeAddress s'"
    "sym_size s = sym_size s'" "sym_label s = sym_label s'"
proof -
  have "sym_section (stripAddress s) = sym_section (stripAddress s')"
    "relativeAddress (stripAddress s) = relativeAddress (stripAddress s')"
    "sym_size (stripAddress s) = sym_size (stripAddress s')"
    "sym_label (stripAddress s) = sym_label (stripAddress s')"
    by (simp_all only: assms)
  then show "sym_section s = sym_section s'" "relativeAddress s = relativeAddress s'"
    "sym_size s = sym_size s'" "sym_label s = sym_label s'"
    by (simp_all add: stripAddress_def)
qed

lemma updateSymbol_cong:
  assumes s: "stripAddress s = stripAddress s'"
    and o: "outputData st = outputData st'" and t: "symbolTable st = symbolTable st'"
    and u: "updateSymbol offs s a st = Inr (s1, a1, st1)"
  shows "\<exists>st1'. updateSymbol offs s' a st' = Inr (s1, a1, st1')
           \<and> outputData st1' = outputData st1 \<and> symbolTable st1' = symbolTable st1"
proof -
  note f = stripAddress_fields [OF s]
  note up = stripAddress_update [OF s]
  from u show ?thesis
    unfolding updateSymbol_def Let_def f o t up
    by (auto split: if_splits sum.splits)
qed

lemma updateSymbols_cong:
  assumes "map stripAddress syms = map stripAddress syms'"
    and "outputData st = outputData st'" and "symbolTable st = symbolTable st'"
    and "updateSymbols offs syms a st = Inr (r, a1, st1)"
  shows "\<exists>st1'. updateSymbols offs syms' a st' = Inr (r, a1, st1')
           \<and> outputData st1' = outputData st1 \<and> symbolTable st1' = symbolTable st1"
  using assms
proof (induction syms arbitrary: syms' a st st' r a1 st1)
  case Nil
  then show ?case by simp
next
  case (Cons s rest)
  from Cons.prems(1) obtain s' rest' where
    sy: "syms' = s' # rest'" and hd: "stripAddress s = stripAddress s'"
    and tl: "map stripAddress rest = map stripAddress rest'"
    by (cases syms') auto
  from Cons.prems(4) obtain r1 where r1: "updateSymbol offs s a st = Inr r1"
    by (cases "updateSymbol offs s a st") simp_all
  obtain s1 b st2 where t1: "r1 = (s1, b, st2)" by (cases r1)
  from Cons.prems(4) r1 t1 obtain r2 where r2: "updateSymbols offs rest b st2 = Inr r2"
    by (cases "updateSymbols offs rest b st2") simp_all
  obtain rest1 c st3 where t2: "r2 = (rest1, c, st3)" by (cases r2)
  from Cons.prems(4) r1 t1 r2 t2 have e: "r = s1 # rest1" "a1 = c" "st1 = st3" by simp_all
  from updateSymbol_cong [OF hd Cons.prems(2,3) r1 [unfolded t1]] obtain st2' where
    a: "updateSymbol offs s' a st' = Inr (s1, b, st2')"
    and ao: "outputData st2' = outputData st2" and at: "symbolTable st2' = symbolTable st2"
    by blast
  from Cons.IH [OF tl ao [symmetric] at [symmetric] r2 [unfolded t2]] obtain st3' where
    b: "updateSymbols offs rest' b st2' = Inr (rest1, c, st3')"
    and bo: "outputData st3' = outputData st3" and bt: "symbolTable st3' = symbolTable st3"
    by blast
  from sy a b bo bt e show ?case by simp
qed

lemma stripFile_fields:
  assumes "stripFile f = stripFile f'"
  shows "elf f = elf f'" "sections f = sections f'"
    "map stripAddress (symbols f) = map stripAddress (symbols f')"
    "f\<lparr>symbols := x\<rparr> = f'\<lparr>symbols := x\<rparr>"
proof -
  have "elf (stripFile f) = elf (stripFile f')" "sections (stripFile f) = sections (stripFile f')"
    "symbols (stripFile f) = symbols (stripFile f')"
    "(stripFile f)\<lparr>symbols := x\<rparr> = (stripFile f')\<lparr>symbols := x\<rparr>"
    by (simp_all only: assms)
  then show "elf f = elf f'" "sections f = sections f'"
    "map stripAddress (symbols f) = map stripAddress (symbols f')"
    "f\<lparr>symbols := x\<rparr> = f'\<lparr>symbols := x\<rparr>"
    by (simp_all add: stripFile_def)
qed

lemma relocateFile_cong:
  assumes s: "stripFile f = stripFile f'"
    and o: "outputData st = outputData st'" and t: "symbolTable st = symbolTable st'"
    and u: "relocateFile R f a st = Inr (ok, f1, a1, st1)"
  shows "\<exists>st1'. relocateFile R f' a st' = Inr (ok, f1, a1, st1')
           \<and> outputData st1' = outputData st1 \<and> symbolTable st1' = symbolTable st1"
proof -
  note sf = stripFile_fields [OF s]
  from u obtain r1 where r1: "placeSections (sections f) a Map.empty = Inr r1"
    unfolding relocateFile_def Let_def
    by (cases "placeSections (sections f) a Map.empty") simp_all
  obtain a2 offs where t1: "r1 = (a2, offs)" by (cases r1)
  from u r1 t1 obtain out where out: "reserveBytes (outputData st) (a2 - a) = Inr out"
    unfolding relocateFile_def Let_def
    by (cases "reserveBytes (outputData st) (a2 - a)") simp_all
  let ?load = "\<lambda>q. loadSections R (elf f) (symbolTable st) offs a (int (length (outputData st)))
           (sections f) (out, False, q)"
  from u r1 t1 out obtain r2 where r2: "?load (queue st) = Inr r2"
    unfolding relocateFile_def Let_def
    by (cases "?load (queue st)") simp_all
  obtain out1 err q where t2: "r2 = (out1, err, q)" by (cases r2)
  from u r1 t1 out r2 t2 obtain r3 where
    r3: "updateSymbols offs (symbols f) a2 (st\<lparr>outputData := out1, queue := q\<rparr>) = Inr r3"
    unfolding relocateFile_def Let_def
    by (cases "updateSymbols offs (symbols f) a2 (st\<lparr>outputData := out1, queue := q\<rparr>)") simp_all
  obtain syms a3 st3 where t3: "r3 = (syms, a3, st3)" by (cases r3)
  from u r1 t1 out r2 t2 r3 t3 have e: "ok = (\<not> err)" "f1 = f\<lparr>symbols := syms\<rparr>" "a1 = a3" "st1 = st3"
    unfolding relocateFile_def Let_def by simp_all
  from loadSections_any_queue [OF r2 [unfolded t2], of "queue st'"] obtain q' where
    l': "?load (queue st') = Inr (out1, err, q')" by blast
  have "outputData (st\<lparr>outputData := out1, queue := q\<rparr>) = outputData (st'\<lparr>outputData := out1, queue := q'\<rparr>)"
    "symbolTable (st\<lparr>outputData := out1, queue := q\<rparr>) = symbolTable (st'\<lparr>outputData := out1, queue := q'\<rparr>)"
    using t by simp_all
  from updateSymbols_cong [OF sf(3) this r3 [unfolded t3]] obtain st3' where
    u': "updateSymbols offs (symbols f') a2 (st'\<lparr>outputData := out1, queue := q'\<rparr>) = Inr (syms, a3, st3')"
    and uo: "outputData st3' = outputData st3" and ut: "symbolTable st3' = symbolTable st3"
    by blast
  have "relocateFile R f' a st' = Inr (ok, f1, a1, st3')"
    using r1 t1 out l' u' e sf(4) [of syms]
    unfolding relocateFile_def Let_def sf(1) [symmetric] sf(2) [symmetric] o [symmetric] t [symmetric]
    by simp
  with uo ut e show ?thesis by simp
qed

lemma relocateFiles_cong:
  assumes "map stripFile fs = map stripFile fs'"
    and "outputData st = outputData st'" and "symbolTable st = symbolTable st'"
    and "relocateFiles R fs a st err = Inr (r, a1, st1, err1)"
  shows "\<exists>st1'. relocateFiles R fs' a st' err = Inr (r, a1, st1', err1)
           \<and> outputData st1' = outputData st1 \<and> symbolTable st1' = symbolTable st1"
  using assms
proof (induction fs arbitrary: fs' a st st' err r a1 st1 err1)
  case Nil
  then show ?case by simp
next
  case (Cons f rest)
  from Cons.prems(1) obtain f' rest' where
    sy: "fs' = f' # rest'" and hd: "stripFile f = stripFile f'"
    and tl: "map stripFile rest = map stripFile rest'"
    by (cases fs') auto
  from Cons.prems(4) obtain r1 where r1: "relocateFile R f a st = Inr r1"
    by (cases "relocateFile R f a st") simp_all
  obtain ok f1 b st2 where t1: "r1 = (ok, f1, b, st2)" by (cases r1)
  let ?e = "if ok = False then True else err"
  from Cons.prems(4) r1 t1 obtain r2 where r2: "relocateFiles R rest b st2 ?e = Inr r2"
    by (cases "relocateFiles R rest b st2 ?e") simp_all
  obtain rest1 c st3 e3 where t2: "r2 = (rest1, c, st3, e3)" by (cases r2)
  from Cons.prems(4) r1 t1 r2 t2 have e: "r = f1 # rest1" "a1 = c" "st1 = st3" "err1 = e3"
    by simp_all
  from relocateFile_cong [OF hd Cons.prems(2,3) r1 [unfolded t1]] obtain st2' where
    a: "relocateFile R f' a st' = Inr (ok, f1, b, st2')"
    and ao: "outputData st2' = outputData st2" and at: "symbolTable st2' = symbolTable st2"
    by blast
  from Cons.IH [OF tl ao [symmetric] at [symmetric] r2 [unfolded t2]] obtain st3' where
    b: "relocateFiles R rest' b st2' ?e = Inr (rest1, c, st3', e3)"
    and bo: "outputData st3' = outputData st3" and bt: "symbolTable st3' = symbolTable st3"
    by blast
  from sy a b bo bt e show ?case by simp
qed

lemma symbol_update_same:
  "(s\<lparr>relocatedAddress := v\<rparr> = s) = (v = relocatedAddress s)" for s :: ElfRelocatorSymbol
  by (cases s) auto

lemma updateSymbol_changed:
  assumes "updateSymbol offs s a st = Inr (s1, a1, st1)"
  shows "dataChanged st1 \<longleftrightarrow> dataChanged st \<or> s1 \<noteq> s" "stripAddress s1 = stripAddress s"
proof -
  from updateSymbol_result [OF assms] have
    1: "s1 = s\<lparr>relocatedAddress := relocatedAddress s1\<rparr>"
    and 2: "dataChanged st1 = (if relocatedAddress s \<noteq> relocatedAddress s1 then True else dataChanged st)"
    by blast+
  from 1 have "s1 = s \<longleftrightarrow> relocatedAddress s1 = relocatedAddress s"
    by (metis symbol_update_same)
  with 2 show "dataChanged st1 \<longleftrightarrow> dataChanged st \<or> s1 \<noteq> s" by auto
  have "stripAddress s1 = stripAddress (s\<lparr>relocatedAddress := relocatedAddress s1\<rparr>)"
    using 1 by simp
  then show "stripAddress s1 = stripAddress s" by (simp add: stripAddress_def)
qed

lemma updateSymbols_changed:
  "updateSymbols offs syms a st = Inr (syms1, a1, st1) \<Longrightarrow>
   (dataChanged st1 \<longleftrightarrow> dataChanged st \<or> syms1 \<noteq> syms)
   \<and> map stripAddress syms1 = map stripAddress syms"
proof (induction syms arbitrary: a st syms1 a1 st1)
  case Nil
  then show ?case by simp
next
  case (Cons s rest)
  from Cons.prems obtain r1 where r1: "updateSymbol offs s a st = Inr r1"
    by (cases "updateSymbol offs s a st") simp_all
  obtain s1 b st2 where t1: "r1 = (s1, b, st2)" by (cases r1)
  from Cons.prems r1 t1 obtain r2 where r2: "updateSymbols offs rest b st2 = Inr r2"
    by (cases "updateSymbols offs rest b st2") simp_all
  obtain rest1 c st3 where t2: "r2 = (rest1, c, st3)" by (cases r2)
  from Cons.prems r1 t1 r2 t2 have e: "syms1 = s1 # rest1" "st1 = st3" by simp_all
  from updateSymbol_changed [OF r1 [unfolded t1]] Cons.IH [OF r2 [unfolded t2]] e
  show ?case by auto
qed

lemma file_update_same:
  "(f\<lparr>symbols := x\<rparr> = f) = (x = symbols f)" for f :: ElfRelocatorFile
  by (cases f) auto

lemma relocateFile_changed:
  assumes "relocateFile R f a st = Inr (ok, f1, a1, st1)"
  shows "dataChanged st1 \<longleftrightarrow> dataChanged st \<or> f1 \<noteq> f" "stripFile f1 = stripFile f"
proof -
  from assms obtain a2 offs out out1 err q syms where
    u: "updateSymbols offs (symbols f) a2 (st\<lparr>outputData := out1, queue := q\<rparr>) = Inr (syms, a1, st1)"
    and f1: "f1 = f\<lparr>symbols := syms\<rparr>"
    by (rule relocateFile_parts)
  from updateSymbols_changed [OF u] have
    c: "dataChanged st1 \<longleftrightarrow> dataChanged st \<or> syms \<noteq> symbols f"
    and s: "map stripAddress syms = map stripAddress (symbols f)" by simp_all
  from f1 have "f1 = f \<longleftrightarrow> syms = symbols f" by (simp add: file_update_same)
  with c show "dataChanged st1 \<longleftrightarrow> dataChanged st \<or> f1 \<noteq> f" by simp
  from f1 s show "stripFile f1 = stripFile f" by (simp add: stripFile_def)
qed

lemma relocateFiles_changed:
  "relocateFiles R fs a st err = Inr (fs1, a1, st1, err1) \<Longrightarrow>
   (dataChanged st1 \<longleftrightarrow> dataChanged st \<or> fs1 \<noteq> fs) \<and> map stripFile fs1 = map stripFile fs"
proof (induction fs arbitrary: a st err fs1 a1 st1 err1)
  case Nil
  then show ?case by simp
next
  case (Cons f rest)
  from Cons.prems obtain r1 where r1: "relocateFile R f a st = Inr r1"
    by (cases "relocateFile R f a st") simp_all
  obtain ok f1 b st2 where t1: "r1 = (ok, f1, b, st2)" by (cases r1)
  let ?e = "if ok = False then True else err"
  from Cons.prems r1 t1 obtain r2 where r2: "relocateFiles R rest b st2 ?e = Inr r2"
    by (cases "relocateFiles R rest b st2 ?e") simp_all
  obtain rest1 c st3 e3 where t2: "r2 = (rest1, c, st3, e3)" by (cases r2)
  from Cons.prems r1 t1 r2 t2 have e: "fs1 = f1 # rest1" "st1 = st3" by simp_all
  from relocateFile_changed [OF r1 [unfolded t1]] Cons.IH [OF r2 [unfolded t2]] e
  show ?case by auto
qed

lemma relocate_again:
  assumes p: "relocate R crc a st = Inr (ok, d, st1)"
    and h: "symbolTable st1 = symbolTable st"
  shows "\<exists>st2. relocate R crc a st1 = Inr (ok, d, st2) \<and> outputData st2 = outputData st1
           \<and> symbolTable st2 = symbolTable st1 \<and> files st2 = files st1 \<and> \<not> dataChanged st2"
proof -
  let ?st0 = "st\<lparr>outputData := [], dataChanged := False\<rparr>"
  let ?st10 = "st1\<lparr>outputData := [], dataChanged := False\<rparr>"
  from p obtain fs1 b stL e where
    f: "relocateFiles R (files st) a ?st0 False = Inr (fs1, b, stL, e)"
    and ok: "ok = (\<not> e)" and d: "d = b - a"
    and s1: "st1 = stL\<lparr>dataChanged := (if crc (outputData st) \<noteq> crc (outputData stL) then True
                                       else dataChanged stL),
                     files := fs1\<rparr>"
    unfolding relocate_Inr by blast
  from relocateFiles_changed [OF f] have sf: "map stripFile fs1 = map stripFile (files st)" by simp
  from s1 have fl: "files st1 = fs1" and o1: "outputData st1 = outputData stL"
    and t1: "symbolTable st1 = symbolTable stL" by simp_all
  have "outputData ?st0 = outputData ?st10" by simp
  moreover have "symbolTable ?st0 = symbolTable ?st10" using h by simp
  moreover note relocateFiles_cong [OF sf [symmetric] _ _ f, of ?st10]
  ultimately obtain stL' where
    f': "relocateFiles R fs1 a ?st10 False = Inr (fs1, b, stL', e)"
    and o': "outputData stL' = outputData stL" and t': "symbolTable stL' = symbolTable stL"
    by blast
  from relocateFiles_changed [OF f'] have nc: "\<not> dataChanged stL'" by simp
  let ?st2 = "stL'\<lparr>dataChanged := (if crc (outputData st1) \<noteq> crc (outputData stL') then True
                                       else dataChanged stL'),
                     files := fs1\<rparr>"
  from f' fl ok d have "relocate R crc a st1 = Inr (ok, d, ?st2)"
    unfolding relocate_Inr by simp
  moreover have "outputData ?st2 = outputData st1" using o' o1 by simp
  moreover have "symbolTable ?st2 = symbolTable st1" using t' t1 by simp
  moreover have "files ?st2 = files st1" using fl by simp
  moreover have "\<not> dataChanged ?st2" using nc o' o1 by simp
  ultimately show ?thesis by blast
qed

lemma setValues_simps:
  "setValues tab [] = tab"
  "setValues tab ((l, v) # ws) = setValues (setValue tab l v) ws"
  "setValues tab (ws @ ws') = setValues (setValues tab ws) ws'"
  by (simp_all add: setValues_def)

lemma setValues_map:
  "setValues tab ws =
     map (\<lambda>(k, lab). (k, case map_of (rev ws) k of None \<Rightarrow> lab
                                | Some v \<Rightarrow> lab\<lparr>label_value := v\<rparr>)) tab"
proof (induction ws rule: rev_induct)
  case Nil
  show ?case by (simp add: setValues_simps)
next
  case (snoc x ws)
  obtain l v where x: "x = (l, v)" by (cases x)
  have "setValues tab (ws @ [x]) = setValue (setValues tab ws) l v"
    by (simp add: setValues_def x)
  also have "\<dots> = map (\<lambda>(k, lab). (k, case map_of (rev (ws @ [x])) k of None \<Rightarrow> lab
                                | Some v \<Rightarrow> lab\<lparr>label_value := v\<rparr>)) tab"
    unfolding snoc.IH setValue_def x
    by (auto split: option.splits)
  finally show ?case .
qed

lemma setValues_twice: "setValues (setValues tab ws) ws = setValues tab ws"
proof -
  let ?G = "\<lambda>(k, lab). (k, case map_of (rev ws) k of None \<Rightarrow> lab
                                | Some v \<Rightarrow> lab\<lparr>label_value := v\<rparr>)"
  have "setValues (setValues tab ws) ws = map ?G (setValues tab ws)"
    by (rule setValues_map)
  also have "\<dots> = map ?G (map ?G tab)"
    by (rule arg_cong [where f = "map ?G"]) (rule setValues_map)
  also have "\<dots> = map ?G tab"
    by (induction tab) (auto split: option.splits)
  also have "\<dots> = setValues tab ws"
    by (rule setValues_map [symmetric])
  finally show ?thesis .
qed

lemma updateSymbols_writes:
  "updateSymbols offs syms a st = Inr (syms1, a1, st1) \<Longrightarrow>
   symbolTable st1 = setValues (symbolTable st) (symbolWrites syms1)"
proof (induction syms arbitrary: a st syms1 a1 st1)
  case Nil
  then show ?case by (simp add: symbolWrites_def setValues_simps)
next
  case (Cons s rest)
  from Cons.prems obtain r1 where r1: "updateSymbol offs s a st = Inr r1"
    by (cases "updateSymbol offs s a st") simp_all
  obtain s1 b st2 where t1: "r1 = (s1, b, st2)" by (cases r1)
  from Cons.prems r1 t1 obtain r2 where r2: "updateSymbols offs rest b st2 = Inr r2"
    by (cases "updateSymbols offs rest b st2") simp_all
  obtain rest1 c st3 where t2: "r2 = (rest1, c, st3)" by (cases r2)
  from Cons.prems r1 t1 r2 t2 have e: "syms1 = s1 # rest1" "st1 = st3" by simp_all
  from updateSymbol_result [OF r1 [unfolded t1]] have
    1: "s1 = s\<lparr>relocatedAddress := relocatedAddress s1\<rparr>"
    and 2: "symbolTable st2 = (case sym_label s of None \<Rightarrow> symbolTable st
                          | Some l \<Rightarrow> setValue (symbolTable st) l (relocatedAddress s1))"
    by blast+
  have "sym_label s1 = sym_label (s\<lparr>relocatedAddress := relocatedAddress s1\<rparr>)"
    using 1 by simp
  then have l: "sym_label s1 = sym_label s" by simp
  have "symbolTable st2 = setValues (symbolTable st) (symbolWrites [s1])"
    using 2 l by (cases "sym_label s") (simp_all add: symbolWrites_def setValues_simps)
  moreover note Cons.IH [OF r2 [unfolded t2]]
  moreover have "symbolWrites (s1 # rest1) = symbolWrites [s1] @ symbolWrites rest1"
    by (simp add: symbolWrites_def)
  ultimately show ?case using e by (simp add: setValues_simps)
qed

lemma relocateFile_writes:
  assumes "relocateFile R f a st = Inr (ok, f1, a1, st1)"
  shows "symbolTable st1 = setValues (symbolTable st) (symbolWrites (symbols f1))"
proof -
  from assms obtain a2 offs out out1 err q syms where
    u: "updateSymbols offs (symbols f) a2 (st\<lparr>outputData := out1, queue := q\<rparr>) = Inr (syms, a1, st1)"
    and f1: "f1 = f\<lparr>symbols := syms\<rparr>"
    by (rule relocateFile_parts)
  from updateSymbols_writes [OF u] f1 show ?thesis by simp
qed

lemma relocateFiles_writes:
  "relocateFiles R fs a st err = Inr (fs1, a1, st1, err1) \<Longrightarrow>
   symbolTable st1 = setValues (symbolTable st) (labelWrites fs1)"
proof (induction fs arbitrary: a st err fs1 a1 st1 err1)
  case Nil
  then show ?case by (simp add: labelWrites_def setValues_simps)
next
  case (Cons f rest)
  from Cons.prems obtain r1 where r1: "relocateFile R f a st = Inr r1"
    by (cases "relocateFile R f a st") simp_all
  obtain ok f1 b st2 where t1: "r1 = (ok, f1, b, st2)" by (cases r1)
  let ?e = "if ok = False then True else err"
  from Cons.prems r1 t1 obtain r2 where r2: "relocateFiles R rest b st2 ?e = Inr r2"
    by (cases "relocateFiles R rest b st2 ?e") simp_all
  obtain rest1 c st3 e3 where t2: "r2 = (rest1, c, st3, e3)" by (cases r2)
  from Cons.prems r1 t1 r2 t2 have e: "fs1 = f1 # rest1" "st1 = st3" by simp_all
  have "labelWrites (f1 # rest1) = symbolWrites (symbols f1) @ labelWrites rest1"
    by (simp add: labelWrites_def)
  with relocateFile_writes [OF r1 [unfolded t1]] Cons.IH [OF r2 [unfolded t2]] e
  show ?case by (simp add: setValues_simps)
qed

lemma relocate_writes:
  assumes "relocate R crc a st = Inr (ok, d, st1)"
  shows "symbolTable st1 = setValues (symbolTable st) (labelWrites (files st1))"
proof -
  from assms obtain fs1 b stL e where
    f: "relocateFiles R (files st) a (st\<lparr>outputData := [], dataChanged := False\<rparr>) False
          = Inr (fs1, b, stL, e)"
    and s1: "st1 = stL\<lparr>dataChanged := (if crc (outputData st) \<noteq> crc (outputData stL) then True
                                       else dataChanged stL),
                     files := fs1\<rparr>"
    unfolding relocate_Inr by blast
  from relocateFiles_writes [OF f] s1 show ?thesis by simp
qed

lemma relocate_unchanged_files:
  assumes p: "relocate R crc a st = Inr (ok, d, st1)" and nc: "\<not> dataChanged st1"
  shows "files st1 = files st"
proof -
  from p obtain fs1 b stL e where
    f: "relocateFiles R (files st) a (st\<lparr>outputData := [], dataChanged := False\<rparr>) False
          = Inr (fs1, b, stL, e)"
    and s1: "st1 = stL\<lparr>dataChanged := (if crc (outputData st) \<noteq> crc (outputData stL) then True
                                       else dataChanged stL),
                     files := fs1\<rparr>"
    unfolding relocate_Inr by blast
  from nc s1 have "\<not> dataChanged stL" by (auto split: if_splits)
  with relocateFiles_changed [OF f] have "fs1 = files st" by simp
  with s1 show ?thesis by simp
qed

lemma relocate_settled_labels:
  assumes p0: "relocate R0 crc0 a0 st0 = Inr (ok0, d0, st)"
    and p: "relocate R crc a st = Inr (ok, d, st1)" and nc: "\<not> dataChanged st1"
  shows "symbolTable st1 = symbolTable st"
proof -
  let ?W = "labelWrites (files st)"
  from relocate_writes [OF p0] have 0: "symbolTable st = setValues (symbolTable st0) ?W" .
  from relocate_unchanged_files [OF p nc] have "files st1 = files st" .
  with relocate_writes [OF p] have "symbolTable st1 = setValues (symbolTable st) ?W" by simp
  also have "\<dots> = setValues (setValues (symbolTable st0) ?W) ?W" by (simp only: 0 [symmetric])
  also have "\<dots> = setValues (symbolTable st0) ?W" by (rule setValues_twice)
  also have "\<dots> = symbolTable st" by (rule 0 [symmetric])
  finally show ?thesis .
qed

text \<open>
  C6. Take a state that an earlier pass has left. When a pass from it ends with
  \<open>dataChanged\<close> false, one more pass from the same address and the state it left
  returns the same result, with \<open>outputData\<close> and the symbol table, so every label
  value, as they were, and \<open>dataChanged\<close> false.
\<close>

theorem relocate_idempotent:
  assumes "relocate R0 crc0 memoryAddress0 st0 = Inr (ok0, delta0, st)"
    and "relocate R crc memoryAddress st = Inr (ok, delta, st1)"
    and "\<not> dataChanged st1"
  shows "\<exists>st2. relocate R crc memoryAddress st1 = Inr (ok, delta, st2)
          \<and> outputData st2 = outputData st1 \<and> symbolTable st2 = symbolTable st1
          \<and> \<not> dataChanged st2"
proof -
  from relocate_settled_labels [OF assms] have "symbolTable st1 = symbolTable st" .
  from relocate_again [OF assms(2) this] show ?thesis by blast
qed

lemma ex_caller_fields:
  "elf exCaller = exElf" "sections exCaller = [exCallerCode]" "symbols exCaller = []"
  "sec_type (elfSection exCallerCode) = SHT_PROGBITS" "index exCallerCode = 1"
  "sec_alignment (elfSection exCallerCode) = 4" "sec_size (elfSection exCallerCode) = 8"
  "sec_data (elfSection exCallerCode) = [0x10, 0, 0, 0, 0x20, 0, 0, 0]"
  "relSection exCallerCode = Some \<lparr>sec_type = SHT_REL, sec_flags = 0, sec_size = 8,
        sec_alignment = 4, sec_info = 1, sec_data = [0, 0, 0, 0, 2, 1, 0, 0]\<rparr>"
  by (simp_all add: exCaller_def exCallerCode_def)

lemma ex_caller_rel: "getRel [0, 0, 0, 0, 2, 1, 0, 0] 0 = Inr exRelExt"
  by (simp add: getRel_def getDoubleWord_def exRelExt_def)

lemma ex_caller_entry:
  "relocateEntry exRelocator exElf (exExtLabel v) [1 \<mapsto> 0x1000] 1 exRelExt
     ([0x10, 0, 0, 0, 0x20, 0, 0, 0], err, q) =
   Inr ([ucast (0x10 + word_of_int v :: 32 word), ucast (drop_bit 8 (0x10 + word_of_int v :: 32 word)),
         ucast (drop_bit 16 (0x10 + word_of_int v :: 32 word)),
         ucast (drop_bit 24 (0x10 + word_of_int v :: 32 word)), 0x20, 0, 0, 0], err, q)"
  by (simp add: relocateEntry_def ex_getSymbolNum ex_getSymbol ex_pos ex_getRelType ex_hook
      ex_prepare ex_getDoubleWord setRelocationBase_def ex_symName getLabel_def exExtLabel_def
      offsetAt_def STT_NOTYPE_def queueError_def replaceDoubleWord_def ex_sym Let_def)

lemma ex_caller_file:
  "relocateFile exRelocator exCaller 0x1000
     \<lparr>files = F, outputData = [], dataChanged = dc, symbolTable = exExtLabel v, queue = []\<rparr> =
   Inr (True, exCaller, 0x1008,
     \<lparr>files = F,
      outputData = [ucast (0x10 + word_of_int v :: 32 word), ucast (drop_bit 8 (0x10 + word_of_int v :: 32 word)),
         ucast (drop_bit 16 (0x10 + word_of_int v :: 32 word)),
         ucast (drop_bit 24 (0x10 + word_of_int v :: 32 word)), 0x20, 0, 0, 0],
      dataChanged = dc, symbolTable = exExtLabel v, queue = []\<rparr>)"
proof -
  have p: "placeSections (sections exCaller) 0x1000 Map.empty = Inr (0x1008, [1 \<mapsto> 0x1000])"
    by (simp add: ex_caller_fields alignUp_multiple)
  have u: "[0 ..< nat (8 sdiv 8)] = [0]" by (simp add: signed_divide_int_def)
  have l: "loadSections exRelocator (elf exCaller) (exExtLabel v) [1 \<mapsto> 0x1000] 0x1000 0
             (sections exCaller) (replicate 8 0, False, []) =
           Inr ([ucast (0x10 + word_of_int v :: 32 word), ucast (drop_bit 8 (0x10 + word_of_int v :: 32 word)),
         ucast (drop_bit 16 (0x10 + word_of_int v :: 32 word)),
         ucast (drop_bit 24 (0x10 + word_of_int v :: 32 word)), 0x20, 0, 0, 0], False, [])"
    by (simp add: ex_caller_fields loadSection_def SHT_PROGBITS_def SHT_NOBITS_def u
        ex_caller_rel ex_caller_entry memcpy_to_def offsetAt_def)
  show ?thesis
    by (simp add: relocateFile_def p reserveBytes_def l ex_caller_fields(3))
qed

lemma ex_provider_file:
  "relocateFile exRelocator (exProvider u) 0x1008
     \<lparr>files = F, outputData = [a, b, c, d, e, f, g, h], dataChanged = dc,
      symbolTable = exExtLabel v, queue = []\<rparr> =
   Inr (True, exProvider 0x1008, 0x100C,
     \<lparr>files = F, outputData = [a, b, c, d, e, f, g, h, 1, 2, 3, 4],
      dataChanged = (u \<noteq> 0x1008 \<or> dc),
      symbolTable = exExtLabel 0x1008, queue = []\<rparr>)"
proof -
  have p: "alignUp 0x1008 4 = Inr 0x1008" by (simp add: alignUp_multiple)
  show ?thesis
    by (simp add: relocateFile_def exProvider_def exDataSection_def exExtSymbol_def p
        reserveBytes_def loadSection_def SHT_PROGBITS_def SHT_NOBITS_def memcpy_to_def
        offsetAt_def updateSymbol_def SHN_ABS_def SHN_COMMON_def setValue_def exExtLabel_def
        Let_def numeral_eq_Suc)
qed

lemma ex_pair_pass:
  "relocate exRelocator exDigest 0x1000
     \<lparr>files = [exCaller, exProvider u], outputData = out0, dataChanged = dc,
      symbolTable = exExtLabel v, queue = []\<rparr> =
   Inr (True, 12,
     \<lparr>files = [exCaller, exProvider 0x1008],
      outputData = [ucast (0x10 + word_of_int v :: 32 word), ucast (drop_bit 8 (0x10 + word_of_int v :: 32 word)),
         ucast (drop_bit 16 (0x10 + word_of_int v :: 32 word)),
         ucast (drop_bit 24 (0x10 + word_of_int v :: 32 word)), 0x20, 0, 0, 0, 1, 2, 3, 4],
      dataChanged = (u \<noteq> 0x1008 \<or> exDigest out0 \<noteq> exDigest
        [ucast (0x10 + word_of_int v :: 32 word), ucast (drop_bit 8 (0x10 + word_of_int v :: 32 word)),
         ucast (drop_bit 16 (0x10 + word_of_int v :: 32 word)),
         ucast (drop_bit 24 (0x10 + word_of_int v :: 32 word)), 0x20, 0, 0, 0, 1, 2, 3, 4]),
      symbolTable = exExtLabel 0x1008, queue = []\<rparr>)"
  by (auto simp: relocate_def ex_caller_file ex_provider_file Let_def)

lemma ex_first_pass:
  "relocate exRelocator exDigest 0x1000 exExported = Inr (True, 12, exFirst)"
  by (simp add: exExported_def exFirst_def ex_pair_pass exDigest_def)

lemma ex_second_pass:
  "relocate exRelocator exDigest 0x1000 exFirst = Inr (True, 12, exSettled)"
  by (simp add: exFirst_def exSettled_def ex_pair_pass exDigest_def)

lemma ex_settled_pass:
  "relocate exRelocator exDigest 0x1000 exSettled = Inr (True, 12, exSettled\<lparr>dataChanged := False\<rparr>)"
  by (simp add: exSettled_def ex_pair_pass exDigest_def)

theorem relocate_idempotent_witness:
  "relocate exRelocator exDigest 0x1000 exExported = Inr (True, 12, exFirst)
   \<and> relocate exRelocator exDigest 0x1000 exFirst = Inr (True, 12, exSettled)
   \<and> relocate exRelocator exDigest 0x1000 exSettled = Inr (True, 12, exSettled\<lparr>dataChanged := False\<rparr>)
   \<and> \<not> dataChanged (exSettled\<lparr>dataChanged := False\<rparr>)
   \<and> (\<exists>st2. relocate exRelocator exDigest 0x1000 (exSettled\<lparr>dataChanged := False\<rparr>) = Inr (True, 12, st2)
         \<and> outputData st2 = outputData (exSettled\<lparr>dataChanged := False\<rparr>)
         \<and> symbolTable st2 = symbolTable (exSettled\<lparr>dataChanged := False\<rparr>)
         \<and> \<not> dataChanged st2)"
proof -
  have n: "\<not> dataChanged (exSettled\<lparr>dataChanged := False\<rparr>)" by simp
  from relocate_idempotent [OF ex_second_pass ex_settled_pass n]
  have c: "\<exists>st2. relocate exRelocator exDigest 0x1000 (exSettled\<lparr>dataChanged := False\<rparr>) = Inr (True, 12, st2)
         \<and> outputData st2 = outputData (exSettled\<lparr>dataChanged := False\<rparr>)
         \<and> symbolTable st2 = symbolTable (exSettled\<lparr>dataChanged := False\<rparr>)
         \<and> \<not> dataChanged st2" .
  from ex_first_pass ex_second_pass ex_settled_pass n c show ?thesis by (intro conjI)
qed

end
